theory Spec2Isabelle
  imports Complex_Main "HOL-Library.Sublist"
begin

section \<open>Python values\<close>

text \<open>
  A Python \<^verbatim>\<open>str\<close> is a sequence of Unicode code points; a code point is modelled
  as a natural number, so that \<^verbatim>\<open>len\<close>, slicing and \<^verbatim>\<open>strip\<close> count what
  Python counts. \<open>lit\<close> turns an ASCII literal into such a sequence.
\<close>

type_synonym pystr = "nat list"

definition lit :: "string \<Rightarrow> pystr" where
  "lit s = map of_char s"

text \<open>The quotation marks that occur inside messages of the interpreter.\<close>

definition apostrophe :: pystr where
  "apostrophe = [39]"

text \<open>
  The code points that \<^verbatim>\<open>str.strip\<close> and \<^verbatim>\<open>str.rstrip\<close> remove when called
  without an argument: the ASCII white space (tab to carriage return, the four
  separators 0x1C..0x1F, the blank) and the Unicode white space.
\<close>

definition py_isspace :: "nat \<Rightarrow> bool" where
  "py_isspace c \<longleftrightarrow>
     (9 \<le> c \<and> c \<le> 13) \<or> (28 \<le> c \<and> c \<le> 32) \<or> c = 133 \<or> c = 160 \<or> c = 5760 \<or>
     (8192 \<le> c \<and> c \<le> 8202) \<or> c = 8232 \<or> c = 8233 \<or> c = 8239 \<or> c = 8287 \<or>
     c = 12288"

definition py_lstrip :: "pystr \<Rightarrow> pystr" where
  "py_lstrip s = dropWhile py_isspace s"

definition py_rstrip :: "pystr \<Rightarrow> pystr" where
  "py_rstrip s = rev (dropWhile py_isspace (rev s))"

definition py_strip :: "pystr \<Rightarrow> pystr" where
  "py_strip s = py_lstrip (py_rstrip s)"

text \<open>
  The slice \<^verbatim>\<open>xs[:k]\<close>: the first \<open>k\<close> elements, and for a negative \<open>k\<close> all but
  the last \<open>-k\<close> elements.
\<close>

definition py_slice_to :: "'a list \<Rightarrow> int \<Rightarrow> 'a list" where
  "py_slice_to xs k = (if 0 \<le> k then take (nat k) xs else take (length xs - nat (- k)) xs)"

text \<open>Decimal rendering of a non-negative integer, as an f-string renders an index.\<close>

fun py_str_nat :: "nat \<Rightarrow> pystr" where
  "py_str_nat n = (if n < 10 then [48 + n] else py_str_nat (n div 10) @ [48 + n mod 10])"

declare py_str_nat.simps [simp del]

text \<open>
  What \<^verbatim>\<open>json.load\<close> returns: \<^verbatim>\<open>None\<close>, \<^verbatim>\<open>bool\<close>, \<^verbatim>\<open>int\<close>, \<^verbatim>\<open>float\<close>,
  \<^verbatim>\<open>str\<close>, \<^verbatim>\<open>list\<close> and \<^verbatim>\<open>dict\<close>. A dict keeps its keys in insertion order,
  so it is an association list; \<^verbatim>\<open>json.load\<close> yields each key once. A float is
  modelled by its value (the non-finite floats are not modelled; the program only
  tests a float for being zero).
\<close>

datatype json =
    JNull
  | JBool bool
  | JInt int
  | JFloat real
  | JStr pystr
  | JArr "json list"
  | JObj "(pystr \<times> json) list"

text \<open>
  The exceptions of the program, each with the text that \<^verbatim>\<open>str(e)\<close> gives.
\<close>

datatype py_exception =
    AttributeError pystr
  | TypeError pystr
  | UnicodeEncodeError pystr
  | OSError pystr

fun exception_text :: "py_exception \<Rightarrow> pystr" where
  "exception_text (AttributeError m) = m"
| "exception_text (TypeError m) = m"
| "exception_text (UnicodeEncodeError m) = m"
| "exception_text (OSError m) = m"

text \<open>
  A str read from JSON can hold a lone surrogate (a code point from D800 to DFFF),
  which UTF-8 cannot encode. The encoder raises at the first run of surrogates, with
  this text.
\<close>

definition is_surrogate :: "nat \<Rightarrow> bool" where
  "is_surrogate c \<longleftrightarrow> 55296 \<le> c \<and> c \<le> 57343"

definition utf8_encodable :: "pystr \<Rightarrow> bool" where
  "utf8_encodable s = list_all (\<lambda>c. \<not> is_surrogate c) s"

definition hex_digit :: "nat \<Rightarrow> nat" where
  "hex_digit n = (if n < 10 then 48 + n else 87 + n)"

definition hex4 :: "nat \<Rightarrow> pystr" where
  "hex4 c = [hex_digit (c div 4096 mod 16), hex_digit (c div 256 mod 16),
             hex_digit (c div 16 mod 16), hex_digit (c mod 16)]"

definition encode_error_text :: "pystr \<Rightarrow> pystr" where
  "encode_error_text s =
     (let start = length (takeWhile (\<lambda>c. \<not> is_surrogate c) s);
          run = takeWhile is_surrogate (drop start s)
      in apostrophe @ lit ''utf-8'' @ apostrophe @ lit '' codec can'' @ apostrophe @
         (if length run = 1
          then lit ''t encode character '' @ apostrophe @ [92] @ lit ''u'' @ hex4 (hd run) @ apostrophe
               @ lit '' in position '' @ py_str_nat start
          else lit ''t encode characters in position '' @ py_str_nat start @ lit ''-''
               @ py_str_nat (start + length run - 1))
         @ lit '': surrogates not allowed'')"

text \<open>
  \<^verbatim>\<open>print(text)\<close>, with the standard output encoding UTF-8 strictly, as Python sets
  it up in a UTF-8 locale: it raises when the text holds a surrogate. A print is part of
  the model wherever data reaches its text; a text made of literals and numbers only
  cannot raise, and such prints are left out.
\<close>

definition py_print :: "pystr \<Rightarrow> py_exception option" where
  "py_print text =
     (if utf8_encodable text then None else Some (UnicodeEncodeError (encode_error_text text)))"

fun type_name :: "json \<Rightarrow> pystr" where
  "type_name JNull = lit ''NoneType''"
| "type_name (JBool b) = lit ''bool''"
| "type_name (JInt n) = lit ''int''"
| "type_name (JFloat r) = lit ''float''"
| "type_name (JStr s) = lit ''str''"
| "type_name (JArr xs) = lit ''list''"
| "type_name (JObj d) = lit ''dict''"

definition no_attribute :: "json \<Rightarrow> pystr \<Rightarrow> py_exception" where
  "no_attribute v a =
     AttributeError (apostrophe @ type_name v @ apostrophe @ lit '' object has no attribute ''
                     @ apostrophe @ a @ apostrophe)"

definition not_iterable :: "json \<Rightarrow> py_exception" where
  "not_iterable v = TypeError (apostrophe @ type_name v @ apostrophe @ lit '' object is not iterable'')"

definition no_len :: "json \<Rightarrow> py_exception" where
  "no_len v = TypeError (lit ''object of type '' @ apostrophe @ type_name v @ apostrophe @ lit '' has no len()'')"

text \<open>Truth value of a value in a condition (\<^verbatim>\<open>if not mapping\<close>).\<close>

fun py_truthy :: "json \<Rightarrow> bool" where
  "py_truthy JNull = False"
| "py_truthy (JBool b) = b"
| "py_truthy (JInt n) = (n \<noteq> 0)"
| "py_truthy (JFloat r) = (r \<noteq> 0)"
| "py_truthy (JStr s) = (s \<noteq> [])"
| "py_truthy (JArr xs) = (xs \<noteq> [])"
| "py_truthy (JObj d) = (d \<noteq> [])"

text \<open>\<^verbatim>\<open>d.get(k, default)\<close> on a dict.\<close>

definition dict_get :: "(pystr \<times> json) list \<Rightarrow> pystr \<Rightarrow> json \<Rightarrow> json" where
  "dict_get d k dflt = (case map_of d k of None \<Rightarrow> dflt | Some v \<Rightarrow> v)"

text \<open>\<^verbatim>\<open>v.get(k, default)\<close> on any value: only a dict has the method.\<close>

fun py_get :: "json \<Rightarrow> pystr \<Rightarrow> json \<Rightarrow> py_exception + json" where
  "py_get (JObj d) k dflt = Inr (dict_get d k dflt)"
| "py_get v k dflt = Inl (no_attribute v (lit ''get''))"

text \<open>\<^verbatim>\<open>v.items()\<close>.\<close>

fun py_items :: "json \<Rightarrow> py_exception + (pystr \<times> json) list" where
  "py_items (JObj d) = Inr d"
| "py_items v = Inl (no_attribute v (lit ''items''))"

text \<open>
  \<^verbatim>\<open>for x in v\<close>: a list yields its elements, a str its characters, a dict its keys;
  nothing else can be iterated.
\<close>

fun py_iter :: "json \<Rightarrow> py_exception + json list" where
  "py_iter (JArr xs) = Inr xs"
| "py_iter (JStr s) = Inr (map (\<lambda>c. JStr [c]) s)"
| "py_iter (JObj d) = Inr (map (\<lambda>kv. JStr (fst kv)) d)"
| "py_iter v = Inl (not_iterable v)"

fun py_len :: "json \<Rightarrow> py_exception + nat" where
  "py_len (JArr xs) = Inr (length xs)"
| "py_len (JStr s) = Inr (length s)"
| "py_len (JObj d) = Inr (length d)"
| "py_len v = Inl (no_len v)"

section \<open>Tokenizer\<close>

text \<open>
  The tokenizer backend (\<^verbatim>\<open>tiktoken\<close>) is a library outside the repository; it is a
  parameter. \<open>None\<close> is a call that raises: \<^verbatim>\<open>get_encoding\<close> when the encoding
  cannot be loaded, \<^verbatim>\<open>encode\<close> on a text it refuses. The handlers of
  \<^verbatim>\<open>count_tokens\<close> and \<^verbatim>\<open>truncate_to_tokens\<close> print the text of such an exception;
  it is taken to hold no surrogate, so that these prints do not raise.
\<close>

record tokenizer =
  encode :: "pystr \<Rightarrow> nat list option"
  decode :: "nat list \<Rightarrow> pystr option"

definition count_tokens :: "tokenizer \<Rightarrow> pystr \<Rightarrow> nat" where
  "count_tokens tok text =
     (case encode tok text of
        Some tokens \<Rightarrow> length tokens
      | None \<Rightarrow> length text div 4)"

definition truncate_to_tokens :: "tokenizer \<Rightarrow> pystr \<Rightarrow> int \<Rightarrow> pystr" where
  "truncate_to_tokens tok text max_tokens =
     (if int (count_tokens tok text) \<le> max_tokens then text
      else (case encode tok text of
              Some tokens \<Rightarrow>
                (case decode tok (py_slice_to tokens max_tokens) of
                   Some truncated \<Rightarrow> truncated
                 | None \<Rightarrow> py_slice_to text (max_tokens * 4))
            | None \<Rightarrow> py_slice_to text (max_tokens * 4)))"

text \<open>A backend that fails on every call, and one whose tokens are the code points.\<close>

definition failing_tokenizer :: tokenizer where
  "failing_tokenizer = \<lparr>encode = (\<lambda>t. None), decode = (\<lambda>ts. None)\<rparr>"

definition codepoint_tokenizer :: tokenizer where
  "codepoint_tokenizer = \<lparr>encode = (\<lambda>t. Some t), decode = (\<lambda>ts. Some ts)\<rparr>"

text \<open>
  A backend that knows three texts: a snippet of two tokens whose first token ends in a
  newline, that first token alone, and the same text without the newline, which it
  splits differently. And a backend that knows one text and fails on every other.
\<close>

definition snippet_tokenizer :: tokenizer where
  "snippet_tokenizer =
     \<lparr>encode = (\<lambda>t. if t = lit ''<>();'' @ [10] @ lit ''x'' then Some [0, 1]
                    else if t = lit ''<>();'' @ [10] then Some [0]
                    else if t = lit ''<>();'' then Some [2, 3]
                    else None),
      decode = (\<lambda>ts. if ts = [0] then Some (lit ''<>();'' @ [10]) else None)\<rparr>"


section \<open>Message normalizer and record formatter\<close>

text \<open>
  \<^verbatim>\<open>remove_duplicates\<close>: the loop over the messages with its three variables, the set
  \<open>seen\<close>, the list \<open>unique_messages\<close> and the counter \<open>duplicates_removed\<close>.
\<close>

fun remove_duplicates_loop ::
  "pystr list \<Rightarrow> pystr set \<Rightarrow> pystr list \<Rightarrow> nat \<Rightarrow> pystr list \<times> nat" where
  "remove_duplicates_loop [] seen unique_messages duplicates_removed =
     (unique_messages, duplicates_removed)"
| "remove_duplicates_loop (msg # msgs) seen unique_messages duplicates_removed =
     (if msg \<notin> seen
      then remove_duplicates_loop msgs (insert msg seen) (unique_messages @ [msg]) duplicates_removed
      else remove_duplicates_loop msgs seen unique_messages (duplicates_removed + 1))"

definition remove_duplicates :: "pystr list \<Rightarrow> pystr list" where
  "remove_duplicates messages = fst (remove_duplicates_loop messages {} [] 0)"

definition filter_empty_entries :: "pystr list \<Rightarrow> pystr list" where
  "filter_empty_entries messages = filter (\<lambda>msg. py_strip msg \<noteq> []) messages"

text \<open>
  The first loop of \<^verbatim>\<open>format_to_jsonl\<close>, with the list \<open>token_limited_messages\<close> and
  the counter \<open>truncated_count\<close>.
\<close>

fun token_limit_loop ::
  "tokenizer \<Rightarrow> int \<Rightarrow> pystr list \<Rightarrow> pystr list \<Rightarrow> nat \<Rightarrow> pystr list \<times> nat" where
  "token_limit_loop tok max_tokens [] token_limited_messages truncated_count =
     (token_limited_messages, truncated_count)"
| "token_limit_loop tok max_tokens (msg # msgs) token_limited_messages truncated_count =
     (if int (count_tokens tok msg) > max_tokens
      then token_limit_loop tok max_tokens msgs
             (token_limited_messages @ [truncate_to_tokens tok msg max_tokens]) (truncated_count + 1)
      else token_limit_loop tok max_tokens msgs (token_limited_messages @ [msg]) truncated_count)"

text \<open>
  The messages that reach the last loop of \<^verbatim>\<open>format_to_jsonl\<close>: the value of
  \<open>token_limited_messages\<close> after the three passes.
\<close>

definition normalized_messages :: "tokenizer \<Rightarrow> pystr list \<Rightarrow> int \<Rightarrow> bool \<Rightarrow> pystr list" where
  "normalized_messages tok messages max_tokens remove_duplicates_flag =
     (let token_limited_messages = fst (token_limit_loop tok max_tokens messages [] 0);
          token_limited_messages =
            (if remove_duplicates_flag then remove_duplicates token_limited_messages
             else token_limited_messages)
      in filter_empty_entries token_limited_messages)"

definition assistant_content :: "pystr \<Rightarrow> pystr" where
  "assistant_content msg = lit '' '' @ py_rstrip msg @ [10]"

definition user_instruction :: pystr where
  "user_instruction = lit ''Write a blog post in my voice.''"

definition json_line :: "pystr \<Rightarrow> json" where
  "json_line content =
     JObj [(lit ''messages'',
            JArr [JObj [(lit ''role'', JStr (lit ''user'')), (lit ''content'', JStr user_instruction)],
                  JObj [(lit ''role'', JStr (lit ''assistant'')), (lit ''content'', JStr content)]])]"

text \<open>The records of the last loop, before they are serialised.\<close>

definition chat_records :: "tokenizer \<Rightarrow> pystr list \<Rightarrow> int \<Rightarrow> bool \<Rightarrow> json list" where
  "chat_records tok messages max_tokens remove_duplicates_flag =
     map (\<lambda>msg. json_line (assistant_content msg))
       (normalized_messages tok messages max_tokens remove_duplicates_flag)"

text \<open>
  \<^verbatim>\<open>json.dumps(_, ensure_ascii=False)\<close> is the library's serialiser: the parameter
  \<open>dumps\<close>.
\<close>

definition format_to_jsonl ::
  "tokenizer \<Rightarrow> (json \<Rightarrow> pystr) \<Rightarrow> pystr list \<Rightarrow> int \<Rightarrow> bool \<Rightarrow> pystr list" where
  "format_to_jsonl tok dumps messages max_tokens remove_duplicates_flag =
     map dumps (chat_records tok messages max_tokens remove_duplicates_flag)"

text \<open>The assistant contents of the records, and a content without its wrapping.\<close>

definition assistant_contents :: "tokenizer \<Rightarrow> pystr list \<Rightarrow> int \<Rightarrow> bool \<Rightarrow> pystr list" where
  "assistant_contents tok messages max_tokens remove_duplicates_flag =
     map assistant_content (normalized_messages tok messages max_tokens remove_duplicates_flag)"

definition unwrap :: "pystr \<Rightarrow> pystr" where
  "unwrap content = butlast (tl content)"

section \<open>Conversation extractor\<close>

text \<open>
  The diagnostic entries are the dicts that the extractor appends to \<open>error_entries\<close>.
  The f-string of a warning renders a str as it is and any other value by
  \<^verbatim>\<open>repr\<close>, a builtin that is the parameter \<open>py_repr\<close>.
\<close>

definition py_format :: "(json \<Rightarrow> pystr) \<Rightarrow> json \<Rightarrow> pystr" where
  "py_format py_repr v = (case v of JStr s \<Rightarrow> s | _ \<Rightarrow> py_repr v)"

definition missing_mapping_warning :: "nat \<Rightarrow> pystr" where
  "missing_mapping_warning i =
     lit ''Warning: Conversation '' @ py_str_nat i @ lit '' has no mapping, skipping...''"

definition missing_mapping_entry :: "nat \<Rightarrow> json \<Rightarrow> json" where
  "missing_mapping_entry i convo =
     JObj [(lit ''type'', JStr (lit ''missing_mapping'')),
           (lit ''conversation_index'', JInt (int i)),
           (lit ''conversation'', convo),
           (lit ''warning'', JStr (missing_mapping_warning i))]"

definition non_text_content_entry :: "(json \<Rightarrow> pystr) \<Rightarrow> nat \<Rightarrow> pystr \<Rightarrow> json \<Rightarrow> json \<Rightarrow> json" where
  "non_text_content_entry py_repr i node_id content_type part =
     JObj [(lit ''type'', JStr (lit ''non_text_content'')),
           (lit ''conversation_index'', JInt (int i)),
           (lit ''node_id'', JStr node_id),
           (lit ''content_type'', content_type),
           (lit ''part'', part),
           (lit ''warning'',
            JStr (lit ''Warning: Conversation '' @ py_str_nat i @ lit '', node '' @ node_id
                  @ lit '' - skipping non-text content: '' @ py_format py_repr content_type))]"

definition non_string_part_warning :: "nat \<Rightarrow> pystr \<Rightarrow> pystr" where
  "non_string_part_warning i node_id =
     lit ''Warning: Conversation '' @ py_str_nat i @ lit '', node '' @ node_id
     @ lit '' - part is not a string or dict, skipping.''"

definition non_string_part_entry :: "nat \<Rightarrow> pystr \<Rightarrow> json \<Rightarrow> json" where
  "non_string_part_entry i node_id part =
     JObj [(lit ''type'', JStr (lit ''non_string_part'')),
           (lit ''conversation_index'', JInt (int i)),
           (lit ''node_id'', JStr node_id),
           (lit ''part'', part),
           (lit ''warning'', JStr (non_string_part_warning i node_id))]"

definition exception_warning :: "nat \<Rightarrow> py_exception \<Rightarrow> pystr" where
  "exception_warning i e =
     lit ''Warning: Error processing conversation '' @ py_str_nat i
     @ lit '', skipping... Error: '' @ exception_text e"

definition exception_entry :: "nat \<Rightarrow> json \<Rightarrow> py_exception \<Rightarrow> json" where
  "exception_entry i convo e =
     JObj [(lit ''type'', JStr (lit ''exception'')),
           (lit ''conversation_index'', JInt (int i)),
           (lit ''conversation'', convo),
           (lit ''error'', JStr (exception_text e)),
           (lit ''warning'', JStr (exception_warning i e))]"

definition entry_type :: "json \<Rightarrow> json" where
  "entry_type entry = (case entry of JObj d \<Rightarrow> dict_get d (lit ''type'') JNull | _ \<Rightarrow> JNull)"

text \<open>
  The body of the loop over the parts of one message. It works on the two lists
  \<open>conversation_messages\<close> and \<open>error_entries\<close>, and returns them with the exception it
  raised, if any. The warning about a part that is neither a str nor a dict is printed
  before its entry is appended, and holds the node id.
\<close>

type_synonym collected = "pystr list \<times> json list"

definition process_part ::
  "(json \<Rightarrow> pystr) \<Rightarrow> nat \<Rightarrow> pystr \<Rightarrow> json \<Rightarrow> collected \<Rightarrow> collected \<times> py_exception option" where
  "process_part py_repr i node_id part s =
     (case s of (conversation_messages, error_entries) \<Rightarrow>
        (case part of
           JStr p \<Rightarrow>
             (if py_strip p \<noteq> []
              then ((conversation_messages @ [py_strip p], error_entries), None)
              else (s, None))
         | JObj d \<Rightarrow>
             (if map_of d (lit ''content_type'') = Some (JStr (lit ''audio_transcription''))
              then (let text = dict_get d (lit ''text'') (JStr [])
                    in (case text of
                          JStr t \<Rightarrow>
                            (if py_strip t \<noteq> []
                             then ((conversation_messages @ [py_strip t], error_entries), None)
                             else (s, None))
                        | _ \<Rightarrow> (s, Some (no_attribute text (lit ''strip'')))))
              else (let content_type = dict_get d (lit ''content_type'') (JStr (lit ''unknown''))
                    in ((conversation_messages,
                         error_entries @ [non_text_content_entry py_repr i node_id content_type part]),
                        None)))
         | _ \<Rightarrow>
             (case py_print (non_string_part_warning i node_id) of
                Some e \<Rightarrow> (s, Some e)
              | None \<Rightarrow>
                  ((conversation_messages, error_entries @ [non_string_part_entry i node_id part]),
                   None))))"

fun parts_loop ::
  "(json \<Rightarrow> pystr) \<Rightarrow> nat \<Rightarrow> pystr \<Rightarrow> json list \<Rightarrow> collected \<Rightarrow> collected \<times> py_exception option" where
  "parts_loop py_repr i node_id [] s = (s, None)"
| "parts_loop py_repr i node_id (part # parts) s =
     (case process_part py_repr i node_id part s of
        (s', Some e) \<Rightarrow> (s', Some e)
      | (s', None) \<Rightarrow> parts_loop py_repr i node_id parts s')"

text \<open>The body of the loop over \<^verbatim>\<open>mapping.items()\<close>.\<close>

definition process_node ::
  "(json \<Rightarrow> pystr) \<Rightarrow> nat \<Rightarrow> pystr \<Rightarrow> json \<Rightarrow> collected \<Rightarrow> collected \<times> py_exception option" where
  "process_node py_repr i node_id node s =
     (case py_get node (lit ''message'') JNull of
        Inl e \<Rightarrow> (s, Some e)
      | Inr message \<Rightarrow>
          if \<not> py_truthy message then (s, None)
          else (case py_get message (lit ''author'') (JObj []) of
                  Inl e \<Rightarrow> (s, Some e)
                | Inr author \<Rightarrow>
                    (case py_get author (lit ''role'') JNull of
                       Inl e \<Rightarrow> (s, Some e)
                     | Inr role \<Rightarrow>
                         if role \<noteq> JStr (lit ''user'') then (s, None)
                         else (case py_get message (lit ''content'') (JObj []) of
                                 Inl e \<Rightarrow> (s, Some e)
                               | Inr content \<Rightarrow>
                                   (case py_get content (lit ''parts'') (JArr []) of
                                      Inl e \<Rightarrow> (s, Some e)
                                    | Inr parts \<Rightarrow>
                                        (case py_iter parts of
                                           Inl e \<Rightarrow> (s, Some e)
                                         | Inr ps \<Rightarrow> parts_loop py_repr i node_id ps s))))))"

fun nodes_loop ::
  "(json \<Rightarrow> pystr) \<Rightarrow> nat \<Rightarrow> (pystr \<times> json) list \<Rightarrow> collected \<Rightarrow> collected \<times> py_exception option" where
  "nodes_loop py_repr i [] s = (s, None)"
| "nodes_loop py_repr i ((node_id, node) # items) s =
     (case process_node py_repr i node_id node s of
        (s', Some e) \<Rightarrow> (s', Some e)
      | (s', None) \<Rightarrow> nodes_loop py_repr i items s')"

text \<open>The three variables of \<^verbatim>\<open>extract_user_messages\<close>.\<close>

record extraction =
  all_user_messages :: "pystr list"
  skipped_conversations :: nat
  error_entries :: "json list"

text \<open>
  The \<^verbatim>\<open>try\<close> block for conversation \<open>i\<close>: the variables when it is left, and the
  exception that left it, if one did. What a failed conversation had appended to
  \<open>error_entries\<close> stays; its \<open>conversation_messages\<close> are lost.
\<close>

definition try_conversation ::
  "(json \<Rightarrow> pystr) \<Rightarrow> nat \<Rightarrow> json \<Rightarrow> extraction \<Rightarrow> extraction \<times> py_exception option" where
  "try_conversation py_repr i convo st =
     (case py_get convo (lit ''mapping'') (JObj []) of
        Inl e \<Rightarrow> (st, Some e)
      | Inr mapping \<Rightarrow>
          if \<not> py_truthy mapping
          then (case py_print (missing_mapping_warning i) of
                  Some e \<Rightarrow> (st, Some e)
                | None \<Rightarrow>
                    (st\<lparr>error_entries := error_entries st @ [missing_mapping_entry i convo],
                        skipped_conversations := skipped_conversations st + 1\<rparr>, None))
          else (case py_items mapping of
                  Inl e \<Rightarrow> (st, Some e)
                | Inr items \<Rightarrow>
                    (case nodes_loop py_repr i items ([], error_entries st) of
                       ((conversation_messages, entries), Some e) \<Rightarrow>
                         (st\<lparr>error_entries := entries\<rparr>, Some e)
                     | ((conversation_messages, entries), None) \<Rightarrow>
                         (st\<lparr>all_user_messages := all_user_messages st @ conversation_messages,
                             error_entries := entries\<rparr>, None))))"

text \<open>
  The \<^verbatim>\<open>try\<close> block with its \<^verbatim>\<open>except Exception\<close> handler. The handler prints its
  warning, which holds the text of the exception, before it appends the entry; an
  exception of this print would leave the function.
\<close>

definition process_conversation ::
  "(json \<Rightarrow> pystr) \<Rightarrow> nat \<Rightarrow> json \<Rightarrow> extraction \<Rightarrow> py_exception + extraction" where
  "process_conversation py_repr i convo st =
     (case try_conversation py_repr i convo st of
        (st', None) \<Rightarrow> Inr st'
      | (st', Some e) \<Rightarrow>
          (case py_print (exception_warning i e) of
             Some e' \<Rightarrow> Inl e'
           | None \<Rightarrow>
               Inr (st'\<lparr>error_entries := error_entries st' @ [exception_entry i convo e],
                        skipped_conversations := skipped_conversations st' + 1\<rparr>)))"

fun extract_loop ::
  "(json \<Rightarrow> pystr) \<Rightarrow> nat \<Rightarrow> json list \<Rightarrow> extraction \<Rightarrow> py_exception + extraction" where
  "extract_loop py_repr i [] st = Inr st"
| "extract_loop py_repr i (convo # convos) st =
     (case process_conversation py_repr i convo st of
        Inl e \<Rightarrow> Inl e
      | Inr st' \<Rightarrow> extract_loop py_repr (Suc i) convos st')"

definition initial_extraction :: extraction where
  "initial_extraction = \<lparr>all_user_messages = [], skipped_conversations = 0, error_entries = []\<rparr>"

section \<open>Files and the main function\<close>

text \<open>
  The file system: the text of each file that exists, and for each path that cannot be
  opened for writing the message of the error that the operating system reports. Such a
  message is text of the system, without surrogates.
\<close>

record filesystem =
  files :: "pystr \<rightharpoonup> pystr"
  open_error :: "pystr \<Rightarrow> string option"

definition writable :: "filesystem \<Rightarrow> pystr \<Rightarrow> bool" where
  "writable fs path \<longleftrightarrow> open_error fs path = None"

text \<open>
  \<^verbatim>\<open>with open(path, "w", encoding="utf-8") as f: for line in lines: f.write(line + "\n")\<close>.
  Opening creates or truncates the file. A line with a surrogate raises when it is
  written; the lines before it are in the file when it is closed.
\<close>

definition write_lines :: "filesystem \<Rightarrow> pystr \<Rightarrow> pystr list \<Rightarrow> filesystem \<times> py_exception option" where
  "write_lines fs path lines =
     (case open_error fs path of
        Some message \<Rightarrow> (fs, Some (OSError (lit message)))
      | None \<Rightarrow>
          (let written = takeWhile utf8_encodable lines;
               fs' = fs\<lparr>files := (files fs)(path \<mapsto> concat (map (\<lambda>line. line @ [10]) written))\<rparr>
           in (case dropWhile utf8_encodable lines of
                 [] \<Rightarrow> (fs', None)
               | line # rest \<Rightarrow> (fs', Some (UnicodeEncodeError (encode_error_text (line @ [10])))))))"

text \<open>
  \<^verbatim>\<open>extract_user_messages\<close>: the loop over \<^verbatim>\<open>enumerate(conversations_data)\<close>, outside
  of any \<^verbatim>\<open>try\<close>, then the diagnostics file. A failure to write it is caught and
  reported by a print that holds the path, as is the report of success; an exception of
  the handler's own print leaves the function.
\<close>

definition report_write_failure ::
  "pystr \<Rightarrow> py_exception \<Rightarrow> py_exception option" where
  "report_write_failure path e =
     py_print (lit ''Error: Could not write errors to '' @ path @ lit '': '' @ exception_text e)"

definition extract_user_messages ::
  "(json \<Rightarrow> pystr) \<Rightarrow> (json \<Rightarrow> pystr) \<Rightarrow> json \<Rightarrow> pystr option \<Rightarrow> filesystem
     \<Rightarrow> filesystem \<times> (py_exception + pystr list)" where
  "extract_user_messages py_repr dumps conversations_data errors_file_path fs =
     (case py_iter conversations_data of
        Inl e \<Rightarrow> (fs, Inl e)
      | Inr convos \<Rightarrow>
          (case extract_loop py_repr 0 convos initial_extraction of
             Inl e \<Rightarrow> (fs, Inl e)
           | Inr st \<Rightarrow>
               (case errors_file_path of
                  None \<Rightarrow> (fs, Inr (all_user_messages st))
                | Some path \<Rightarrow>
                    if path \<noteq> [] \<and> error_entries st \<noteq> []
                    then (case write_lines fs path (map dumps (error_entries st)) of
                            (fs', None) \<Rightarrow>
                              (case py_print (lit ''Warnings for non-exporting of non-text content written to ''
                                              @ path) of
                                 None \<Rightarrow> (fs', Inr (all_user_messages st))
                               | Some e \<Rightarrow>
                                   (case report_write_failure path e of
                                      None \<Rightarrow> (fs', Inr (all_user_messages st))
                                    | Some e' \<Rightarrow> (fs', Inl e')))
                          | (fs', Some e) \<Rightarrow>
                              (case report_write_failure path e of
                                 None \<Rightarrow> (fs', Inr (all_user_messages st))
                               | Some e' \<Rightarrow> (fs', Inl e')))
                    else (fs, Inr (all_user_messages st)))))"

text \<open>
  \<^verbatim>\<open>load_conversations\<close>: every failure is reported and ends the process with status
  1, which is also the status when the report itself raises. The parser \<^verbatim>\<open>json.load\<close>
  is the parameter \<open>loads\<close>.
\<close>

definition load_conversations ::
  "(pystr \<Rightarrow> json option) \<Rightarrow> filesystem \<Rightarrow> pystr \<Rightarrow> nat + json" where
  "load_conversations loads fs file_path =
     (case files fs file_path of
        None \<Rightarrow> Inl 1
      | Some text \<Rightarrow> (case loads text of None \<Rightarrow> Inl 1 | Some conversations \<Rightarrow> Inr conversations))"

text \<open>
  \<^verbatim>\<open>write_jsonl_output\<close>: the report of success is printed inside the \<^verbatim>\<open>try\<close>; every
  failure ends the process with status 1, whether its report can be printed or not.
\<close>

definition write_jsonl_output :: "filesystem \<Rightarrow> pystr \<Rightarrow> pystr list \<Rightarrow> filesystem \<times> nat" where
  "write_jsonl_output fs output_file_path jsonl_lines =
     (case write_lines fs output_file_path jsonl_lines of
        (fs', None) \<Rightarrow>
          (case py_print (lit ''Successfully wrote '' @ py_str_nat (length jsonl_lines)
                          @ lit '' lines to '' @ output_file_path) of
             None \<Rightarrow> (fs', 0)
           | Some e \<Rightarrow> (fs', 1))
      | (fs', Some e) \<Rightarrow> (fs', 1))"

text \<open>
  \<^verbatim>\<open>main\<close> after the arguments are parsed: the file system it leaves and the exit
  status. It prints the two paths, which come from the command line. An exception that
  nothing catches ends the process with status 1.
\<close>

record args =
  arg_input_file :: pystr
  arg_output_file :: pystr
  arg_max_tokens :: int
  arg_no_remove_duplicates :: bool

record library =
  lib_tokenizer :: tokenizer
  lib_repr :: "json \<Rightarrow> pystr"
  lib_dumps :: "json \<Rightarrow> pystr"
  lib_loads :: "pystr \<Rightarrow> json option"

definition main :: "library \<Rightarrow> args \<Rightarrow> filesystem \<Rightarrow> filesystem \<times> nat" where
  "main lib a fs =
     (case py_print (lit ''Loading conversations from: '' @ arg_input_file a) of
        Some e \<Rightarrow> (fs, 1)
      | None \<Rightarrow>
     (case load_conversations (lib_loads lib) fs (arg_input_file a) of
        Inl status \<Rightarrow> (fs, status)
      | Inr conversations \<Rightarrow>
          (case py_len conversations of
             Inl e \<Rightarrow> (fs, 1)
           | Inr n \<Rightarrow>
               (case extract_user_messages (lib_repr lib) (lib_dumps lib) conversations
                       (Some (lit ''errors.jsonl'')) fs of
                  (fs1, Inl e) \<Rightarrow> (fs1, 1)
                | (fs1, Inr user_messages) \<Rightarrow>
                    (let remove_duplicates_flag = \<not> arg_no_remove_duplicates a;
                         jsonl_lines = format_to_jsonl (lib_tokenizer lib) (lib_dumps lib) user_messages
                                         (arg_max_tokens a) remove_duplicates_flag
                     in (case py_print (lit ''Writing output to: '' @ arg_output_file a) of
                           Some e \<Rightarrow> (fs1, 1)
                         | None \<Rightarrow> write_jsonl_output fs1 (arg_output_file a) jsonl_lines))))))"

section \<open>The passes as the specification words them\<close>

text \<open>
  Truncation pass: a fragment whose token count exceeds the limit is replaced by its
  truncation; any other fragment stays.
\<close>

definition token_limited :: "tokenizer \<Rightarrow> int \<Rightarrow> pystr \<Rightarrow> pystr" where
  "token_limited tok limit msg =
     (if int (count_tokens tok msg) > limit then truncate_to_tokens tok msg limit else msg)"

text \<open>
  Deduplication pass: only the first occurrence of each distinct value is retained, in
  the original order.
\<close>

fun first_occurrences :: "'a list \<Rightarrow> 'a list" where
  "first_occurrences [] = []"
| "first_occurrences (x # xs) = x # first_occurrences (removeAll x xs)"

section \<open>Fragments in order\<close>

text \<open>
  The fragments that one part contributes, as the specification words them: a string
  part, trimmed, when it is not empty; the trimmed text of an audio transcription when it
  is not empty; nothing for any other part.
\<close>

fun fragments_of_part :: "json \<Rightarrow> pystr list" where
  "fragments_of_part (JStr p) = (if py_strip p \<noteq> [] then [py_strip p] else [])"
| "fragments_of_part (JObj d) =
     (if map_of d (lit ''content_type'') = Some (JStr (lit ''audio_transcription''))
      then (case dict_get d (lit ''text'') (JStr []) of
              JStr t \<Rightarrow> (if py_strip t \<noteq> [] then [py_strip t] else [])
            | _ \<Rightarrow> [])
      else [])"
| "fragments_of_part _ = []"

text \<open>
  Whether a part, a node or a list of them raises, and the fragments that a node or a
  conversation contributes: the result of the code on empty lists. The node id takes
  part, because the warning about a part that is neither a str nor a dict holds it and
  is printed. A list contributes the fragments of its elements in order, up to the first
  one that raises.
\<close>

definition raises_part :: "pystr \<Rightarrow> json \<Rightarrow> bool" where
  "raises_part node_id part \<longleftrightarrow> snd (process_part (\<lambda>v. []) 0 node_id part ([], [])) \<noteq> None"

fun fragments_of_parts :: "pystr \<Rightarrow> json list \<Rightarrow> pystr list" where
  "fragments_of_parts node_id [] = []"
| "fragments_of_parts node_id (part # parts) =
     fragments_of_part part @
     (if raises_part node_id part then [] else fragments_of_parts node_id parts)"

fun raises_parts :: "pystr \<Rightarrow> json list \<Rightarrow> bool" where
  "raises_parts node_id [] = False"
| "raises_parts node_id (part # parts) =
     (raises_part node_id part \<or> raises_parts node_id parts)"

definition fragments_of_node :: "pystr \<Rightarrow> json \<Rightarrow> pystr list" where
  "fragments_of_node node_id node =
     fst (fst (process_node (\<lambda>v. []) 0 node_id node ([], [])))"

definition raises_node :: "pystr \<Rightarrow> json \<Rightarrow> bool" where
  "raises_node node_id node \<longleftrightarrow> snd (process_node (\<lambda>v. []) 0 node_id node ([], [])) \<noteq> None"

fun fragments_of_nodes :: "(pystr \<times> json) list \<Rightarrow> pystr list" where
  "fragments_of_nodes [] = []"
| "fragments_of_nodes ((node_id, node) # items) =
     fragments_of_node node_id node @
     (if raises_node node_id node then [] else fragments_of_nodes items)"

fun raises_nodes :: "(pystr \<times> json) list \<Rightarrow> bool" where
  "raises_nodes [] = False"
| "raises_nodes ((node_id, node) # items) =
     (raises_node node_id node \<or> raises_nodes items)"

definition fragments_of_conversation :: "json \<Rightarrow> pystr list" where
  "fragments_of_conversation convo =
     all_user_messages (fst (try_conversation (\<lambda>v. []) 0 convo initial_extraction))"


definition append_extraction :: "extraction \<Rightarrow> extraction \<Rightarrow> extraction" where
  "append_extraction st s =
     \<lparr>all_user_messages = all_user_messages st @ all_user_messages s,
      skipped_conversations = skipped_conversations st + skipped_conversations s,
      error_entries = error_entries st @ error_entries s\<rparr>"

section \<open>Example inputs\<close>

text \<open>
  An export of two conversations: one whose single node holds a user message with the
  same text twice, and one with an empty mapping. The library of the examples has the
  code-point tokenizer, a parser that knows four texts, and a serialiser that renders a
  diagnostic entry by its type and a chat record by its assistant content.
\<close>

definition quoted :: "string \<Rightarrow> pystr" where
  "quoted s = [34] @ lit s @ [34]"

definition example_text :: pystr where
  "example_text =
     lit ''[{'' @ quoted ''mapping'' @ lit '': {'' @ quoted ''n1'' @ lit '': {'' @ quoted ''message''
     @ lit '': {'' @ quoted ''author'' @ lit '': {'' @ quoted ''role'' @ lit '': '' @ quoted ''user''
     @ lit ''}, '' @ quoted ''content'' @ lit '': {'' @ quoted ''parts'' @ lit '': [''
     @ quoted ''Hello world. Great!'' @ lit '', '' @ quoted ''Hello world. Great!''
     @ lit '']}}}}}, {'' @ quoted ''mapping'' @ lit '': {}}]''"

definition example_nodes :: "(pystr \<times> json) list" where
  "example_nodes =
     [(lit ''n1'',
       JObj [(lit ''message'',
              JObj [(lit ''author'', JObj [(lit ''role'', JStr (lit ''user''))]),
                    (lit ''content'',
                     JObj [(lit ''parts'',
                            JArr [JStr (lit ''Hello world. Great!''),
                                  JStr (lit ''Hello world. Great!'')])])])])]"

definition example_export :: json where
  "example_export =
     JArr [JObj [(lit ''mapping'', JObj example_nodes)], JObj [(lit ''mapping'', JObj [])]]"

definition example_object_text :: pystr where
  "example_object_text = lit ''{'' @ quoted ''a'' @ lit '': 1}''"

definition example_string_text :: pystr where
  "example_string_text = quoted ''ab''"

definition example_loads :: "pystr \<Rightarrow> json option" where
  "example_loads text =
     (if text = example_text then Some example_export
      else if text = example_object_text then Some (JObj [(lit ''a'', JInt 1)])
      else if text = example_string_text then Some (JStr (lit ''ab''))
      else if text = lit ''null'' then Some JNull
      else None)"

definition example_dumps :: "json \<Rightarrow> pystr" where
  "example_dumps v =
     (case v of
        JObj d \<Rightarrow>
          (case dict_get d (lit ''type'') JNull of
             JStr t \<Rightarrow> t
           | _ \<Rightarrow>
               (case dict_get d (lit ''messages'') JNull of
                  JArr [user_turn, JObj assistant_turn] \<Rightarrow>
                    (case dict_get assistant_turn (lit ''content'') JNull of
                       JStr content \<Rightarrow> content
                     | _ \<Rightarrow> [])
                | _ \<Rightarrow> []))
      | _ \<Rightarrow> [])"

definition example_library :: library where
  "example_library =
     \<lparr>lib_tokenizer = codepoint_tokenizer, lib_repr = (\<lambda>v. lit ''?''),
      lib_dumps = example_dumps, lib_loads = example_loads\<rparr>"

definition example_args :: args where
  "example_args =
     \<lparr>arg_input_file = lit ''in.json'', arg_output_file = lit ''out.jsonl'',
      arg_max_tokens = 2048, arg_no_remove_duplicates = False\<rparr>"

definition other_args :: args where
  "other_args = example_args\<lparr>arg_output_file := lit ''copy.jsonl''\<rparr>"

definition other_files :: filesystem where
  "other_files = \<lparr>files = [lit ''in.json'' \<mapsto> example_text], open_error = (\<lambda>path. None)\<rparr>"

definition example_files :: "pystr \<Rightarrow> filesystem" where
  "example_files text =
     \<lparr>files = [lit ''in.json'' \<mapsto> text, lit ''out.jsonl'' \<mapsto> lit ''old''],
      open_error = (\<lambda>path. None)\<rparr>"

section \<open>Properties\<close>

subsection \<open>White space and wrapping\<close>

lemma lit_space: "lit '' '' = [32]"
  by (simp add: lit_def)

lemma length_py_rstrip: "length (py_rstrip s) \<le> length s"
  using length_dropWhile_le [of py_isspace "rev s"] by (simp add: py_rstrip_def)

lemma py_strip_eq_Nil: "py_strip s = [] \<longleftrightarrow> (\<forall>c\<in>set s. py_isspace c)"
proof
  assume empty: "py_strip s = []"
  show "\<forall>c\<in>set s. py_isspace c"
  proof (rule ccontr)
    assume "\<not> (\<forall>c\<in>set s. py_isspace c)"
    then have ne: "dropWhile py_isspace (rev s) \<noteq> []"
      by simp
    then have "\<not> py_isspace (hd (dropWhile py_isspace (rev s)))"
      by (rule hd_dropWhile)
    moreover from ne have "hd (dropWhile py_isspace (rev s)) \<in> set (dropWhile py_isspace (rev s))"
      by simp
    ultimately show False
      using empty by (auto simp: py_strip_def py_lstrip_def py_rstrip_def)
  qed
next
  assume "\<forall>c\<in>set s. py_isspace c"
  then have "py_rstrip s = []"
    by (simp add: py_rstrip_def)
  then show "py_strip s = []"
    by (simp add: py_strip_def py_lstrip_def)
qed

lemma py_rstrip_keeps_text: "py_strip s \<noteq> [] \<Longrightarrow> \<exists>c\<in>set (py_rstrip s). \<not> py_isspace c"
  by (auto simp: py_strip_def py_lstrip_def)

lemma assistant_content_not_blank:
  assumes "py_strip msg \<noteq> []"
  shows "py_strip (assistant_content msg) \<noteq> []"
proof -
  from assms obtain c where "c \<in> set (py_rstrip msg)" "\<not> py_isspace c"
    using py_rstrip_keeps_text by blast
  then have "\<not> (\<forall>c\<in>set (assistant_content msg). py_isspace c)"
    by (auto simp: assistant_content_def)
  then show ?thesis
    by (simp add: py_strip_eq_Nil)
qed

lemma unwrap_assistant_content: "unwrap (assistant_content msg) = py_rstrip msg"
  by (simp add: unwrap_def assistant_content_def lit_space butlast_append)

lemma token_limit_loop_eq:
  "token_limit_loop tok limit msgs acc n =
     (acc @ map (token_limited tok limit) msgs,
      n + length (filter (\<lambda>msg. int (count_tokens tok msg) > limit) msgs))"
  by (induction msgs arbitrary: acc n) (simp_all add: token_limited_def)

lemma set_first_occurrences: "set (first_occurrences xs) = set xs"
  by (induction xs rule: first_occurrences.induct) auto

lemma distinct_first_occurrences: "distinct (first_occurrences xs)"
  by (induction xs rule: first_occurrences.induct) (simp_all add: set_first_occurrences)

lemma subseq_first_occurrences: "subseq (first_occurrences xs) xs"
proof (induction xs rule: first_occurrences.induct)
  case 1
  show ?case by simp
next
  case (2 x xs)
  have "subseq (removeAll x xs) xs"
    by (simp add: removeAll_filter_not_eq)
  with "2.IH" have "subseq (first_occurrences (removeAll x xs)) xs"
    by (rule subseq_order.trans)
  then show ?case by simp
qed

lemma remove_duplicates_loop_eq:
  "fst (remove_duplicates_loop msgs seen unique d) =
     unique @ first_occurrences (filter (\<lambda>msg. msg \<notin> seen) msgs)"
proof (induction msgs arbitrary: seen unique d)
  case Nil
  show ?case by simp
next
  case (Cons msg msgs)
  show ?case
  proof (cases "msg \<in> seen")
    case True
    then show ?thesis by (simp add: Cons.IH)
  next
    case False
    have "removeAll msg (filter (\<lambda>m. m \<notin> seen) msgs) = filter (\<lambda>m. m \<notin> insert msg seen) msgs"
      by (induction msgs) auto
    with False show ?thesis by (simp add: Cons.IH)
  qed
qed

lemma remove_duplicates_eq: "remove_duplicates messages = first_occurrences messages"
  by (simp add: remove_duplicates_def remove_duplicates_loop_eq)

lemma normalized_messages_eq:
  "normalized_messages tok messages limit flag =
     filter (\<lambda>msg. py_strip msg \<noteq> [])
       ((if flag then first_occurrences else id) (map (token_limited tok limit) messages))"
  by (simp add: normalized_messages_def token_limit_loop_eq remove_duplicates_eq
      filter_empty_entries_def)


lemma set_normalized_messages:
  "set (normalized_messages tok messages limit flag) \<subseteq>
     {m \<in> token_limited tok limit ` set messages. py_strip m \<noteq> []}"
  by (auto simp: normalized_messages_eq set_first_occurrences)

subsection \<open>Tokenizer fallback\<close>

text \<open>
  C4 (as the code has it). When the backend fails on a text, \<open>count_tokens\<close> is the
  length of the text divided by four and rounded down, and \<open>truncate_to_tokens\<close> returns
  the text unchanged when this estimate is within the limit, and the slice up to four
  times the limit otherwise. For a limit that is not negative the result is the first
  \<open>4 * limit\<close> characters, except for a text of \<open>4 * limit + 1\<close> to \<open>4 * limit + 3\<close>
  characters, which is returned whole.
\<close>

theorem fallback_heuristics:
  assumes "encode tok text = None"
  shows "count_tokens tok text = length text div 4 \<and>
         truncate_to_tokens tok text limit =
           (if int (length text div 4) \<le> limit then text else py_slice_to text (limit * 4)) \<and>
         (0 \<le> limit \<longrightarrow>
            truncate_to_tokens tok text limit =
              (if 4 * nat limit < length text \<and> length text < 4 * nat limit + 4 then text
               else take (4 * nat limit) text))"
proof -
  have count: "count_tokens tok text = length text div 4"
    using assms by (simp add: count_tokens_def)
  have trunc: "truncate_to_tokens tok text limit =
      (if int (length text div 4) \<le> limit then text else py_slice_to text (limit * 4))"
    using assms by (simp add: truncate_to_tokens_def count)
  have "truncate_to_tokens tok text limit =
          (if 4 * nat limit < length text \<and> length text < 4 * nat limit + 4 then text
           else take (4 * nat limit) text)" if nonneg: "0 \<le> limit"
  proof (cases "int (length text div 4) \<le> limit")
    case True
    with nonneg have "length text div 4 \<le> nat limit" by linarith
    then have "length text < 4 * nat limit + 4" by linarith
    with True show ?thesis by (simp add: trunc)
  next
    case False
    with nonneg have "nat limit < length text div 4" by linarith
    then have "4 * nat limit + 4 \<le> length text" by linarith
    moreover from nonneg have "nat (limit * 4) = 4 * nat limit" by (simp add: nat_mult_distrib)
    ultimately show ?thesis using False nonneg by (simp add: trunc py_slice_to_def)
  qed
  with count trunc show ?thesis by blast
qed

theorem fallback_heuristics_witness:
  "encode failing_tokenizer (lit ''abcdefghi'') = None \<and>
   count_tokens failing_tokenizer (lit ''abcdefghi'') = 2 \<and>
   truncate_to_tokens failing_tokenizer (lit ''abcdefghi'') 1 = lit ''abcd''"
proof -
  have h: "encode failing_tokenizer (lit ''abcdefghi'') = None"
    by (simp add: failing_tokenizer_def)
  show ?thesis
    using h fallback_heuristics [OF h, of 1] by (simp add: lit_def py_slice_to_def)
qed

text \<open>
  C4 as stated fails: a text of three characters counts as zero tokens, not as the
  rounded-up one, and a text of seven characters is not cut to four by the limit 1.
\<close>

theorem fallback_heuristics_counterexample:
  "count_tokens failing_tokenizer (lit ''abc'') \<noteq> nat \<lceil>real (length (lit ''abc'')) / 4\<rceil> \<and>
   truncate_to_tokens failing_tokenizer (lit ''abcdefg'') 1 \<noteq> take (1 * 4) (lit ''abcdefg'')"
  by (simp add: count_tokens_def truncate_to_tokens_def failing_tokenizer_def lit_def)

subsection \<open>Normalizer\<close>

text \<open>
  C5. The messages that reach the formatter are the result of the truncation pass,
  then the deduplication pass when it is enabled, then the empty filter, in this order.
  The truncation loop maps each message in place, and the other two passes return a
  subsequence of their input, so each pass keeps the relative order of what it retains.
\<close>

theorem normalizer_pass_order:
  "normalized_messages tok messages limit flag =
     filter (\<lambda>msg. py_strip msg \<noteq> [])
       ((if flag then first_occurrences else id) (map (token_limited tok limit) messages)) \<and>
   fst (token_limit_loop tok limit messages [] 0) = map (token_limited tok limit) messages \<and>
   remove_duplicates xs = first_occurrences xs \<and> subseq (remove_duplicates xs) xs \<and>
   subseq (filter_empty_entries xs) xs"
  by (simp add: normalized_messages_eq token_limit_loop_eq remove_duplicates_eq
      subseq_first_occurrences filter_empty_entries_def)

theorem normalizer_pass_order_witness:
  "normalized_messages codepoint_tokenizer [lit ''ab'', lit ''abc'', lit '' '', lit ''ab''] 2 True =
     [lit ''ab'']"
  using normalizer_pass_order
    [of codepoint_tokenizer "[lit ''ab'', lit ''abc'', lit '' '', lit ''ab'']" 2 True "[]"]
  by (simp add: token_limited_def count_tokens_def truncate_to_tokens_def codepoint_tokenizer_def
      py_slice_to_def lit_def py_strip_def py_lstrip_def py_rstrip_def py_isspace_def)

text \<open>
  C2 (as the code has it). With deduplication enabled the fragments that reach the
  formatter are pairwise distinct. Two records have the same assistant content exactly
  when their fragments agree after their trailing white space is stripped, so the
  contents are pairwise distinct when no fragment ends in white space after truncation.
  With deduplication disabled every fragment that is not blank after truncation is
  emitted, duplicates included, in the original order.
\<close>

theorem dedup_records:
  "(flag \<longrightarrow> distinct (normalized_messages tok messages limit flag)) \<and>
   (distinct (assistant_contents tok messages limit flag) \<longleftrightarrow>
      distinct (map py_rstrip (normalized_messages tok messages limit flag))) \<and>
   (flag \<and> (\<forall>m\<in>set (normalized_messages tok messages limit flag). py_rstrip m = m) \<longrightarrow>
      distinct (assistant_contents tok messages limit flag)) \<and>
   assistant_contents tok messages limit False =
     map assistant_content (filter (\<lambda>m. py_strip m \<noteq> []) (map (token_limited tok limit) messages))"
proof -
  let ?ms = "normalized_messages tok messages limit flag"
  have d: "distinct ?ms" if flag
    using that by (simp add: normalized_messages_eq distinct_first_occurrences)
  have "map assistant_content ?ms = map (\<lambda>r. 32 # r @ [10]) (map py_rstrip ?ms)"
    by (simp add: assistant_content_def lit_space)
  moreover have "inj (\<lambda>r::pystr. 32 # r @ [10])"
    by (simp add: inj_def)
  ultimately have iff: "distinct (assistant_contents tok messages limit flag) \<longleftrightarrow>
      distinct (map py_rstrip ?ms)"
    unfolding assistant_contents_def
    by (metis distinct_map inj_on_subset subset_UNIV)
  have "map py_rstrip ?ms = ?ms" if "\<forall>m\<in>set ?ms. py_rstrip m = m"
    using that by (simp add: map_idI)
  with d iff have "distinct (assistant_contents tok messages limit flag)"
    if "flag \<and> (\<forall>m\<in>set ?ms. py_rstrip m = m)"
    using that by simp
  moreover have "assistant_contents tok messages limit False =
     map assistant_content (filter (\<lambda>m. py_strip m \<noteq> []) (map (token_limited tok limit) messages))"
    by (simp add: assistant_contents_def normalized_messages_eq)
  ultimately show ?thesis using d iff by blast
qed

theorem dedup_records_witness:
  "distinct (normalized_messages failing_tokenizer [lit ''abc'', lit ''abc'', lit ''de''] 1 True) \<and>
   distinct (assistant_contents failing_tokenizer [lit ''abc'', lit ''abc'', lit ''de''] 1 True) \<and>
   assistant_contents failing_tokenizer [lit ''abc'', lit ''abc'', lit ''de''] 1 False =
     [lit '' abc'' @ [10], lit '' abc'' @ [10], lit '' de'' @ [10]]"
proof -
  have n: "normalized_messages failing_tokenizer [lit ''abc'', lit ''abc'', lit ''de''] 1 True =
      [lit ''abc'', lit ''de'']"
    by (simp add: normalized_messages_eq token_limited_def count_tokens_def failing_tokenizer_def
        lit_def py_strip_def py_lstrip_def py_rstrip_def py_isspace_def)
  have r: "\<forall>m\<in>set [lit ''abc'', lit ''de'']. py_rstrip m = m"
    by (simp add: lit_def py_rstrip_def py_isspace_def)
  show ?thesis
    using dedup_records [of True failing_tokenizer "[lit ''abc'', lit ''abc'', lit ''de'']" 1] n r
    by (simp add: token_limited_def count_tokens_def failing_tokenizer_def
        lit_def py_strip_def py_lstrip_def py_rstrip_def py_isspace_def assistant_content_def)
qed

text \<open>
  C2 as stated fails. With the backend failing and the limit 1, the fragment
  \<open>abc  def\<close> is cut to \<open>abc\<close> followed by a blank, which differs from the fragment
  \<open>abc\<close>; both survive deduplication, and the formatter strips the blank.
\<close>

theorem dedup_records_counterexample:
  "assistant_contents failing_tokenizer [lit ''abc'', lit ''abc  def''] 1 True =
     [lit '' abc'' @ [10], lit '' abc'' @ [10]]"
  by (simp add: assistant_contents_def normalized_messages_def remove_duplicates_def
      filter_empty_entries_def count_tokens_def truncate_to_tokens_def failing_tokenizer_def lit_def
      py_slice_to_def assistant_content_def py_rstrip_def py_strip_def py_lstrip_def py_isspace_def)

subsection \<open>Record formatter\<close>

text \<open>
  C9. Every emitted record has exactly two turns: the user turn with the constant
  instruction, then the assistant turn whose content is one blank, a fragment of the
  input (after the truncation pass) with its trailing white space stripped, and one
  newline. This content is never empty and never consists of white space only.
\<close>

theorem chat_record_shape:
  assumes "r \<in> set (chat_records tok messages limit flag)"
  shows "\<exists>msg\<in>set messages.
           r = JObj [(lit ''messages'',
                      JArr [JObj [(lit ''role'', JStr (lit ''user'')),
                                  (lit ''content'', JStr (lit ''Write a blog post in my voice.''))],
                            JObj [(lit ''role'', JStr (lit ''assistant'')),
                                  (lit ''content'',
                                   JStr ([32] @ py_rstrip (token_limited tok limit msg) @ [10]))]])] \<and>
           py_strip ([32] @ py_rstrip (token_limited tok limit msg) @ [10]) \<noteq> []"
proof -
  from assms obtain m where m: "m \<in> set (normalized_messages tok messages limit flag)"
    and r: "r = json_line (assistant_content m)"
    by (auto simp: chat_records_def)
  from m set_normalized_messages obtain msg where msg: "msg \<in> set messages"
    and eq: "m = token_limited tok limit msg" and ne: "py_strip m \<noteq> []"
    by blast
  from ne have "py_strip (assistant_content m) \<noteq> []"
    by (rule assistant_content_not_blank)
  with r eq have "r = JObj [(lit ''messages'',
                      JArr [JObj [(lit ''role'', JStr (lit ''user'')),
                                  (lit ''content'', JStr (lit ''Write a blog post in my voice.''))],
                            JObj [(lit ''role'', JStr (lit ''assistant'')),
                                  (lit ''content'',
                                   JStr ([32] @ py_rstrip (token_limited tok limit msg) @ [10]))]])] \<and>
           py_strip ([32] @ py_rstrip (token_limited tok limit msg) @ [10]) \<noteq> []"
    by (simp add: json_line_def assistant_content_def user_instruction_def lit_space)
  with msg show ?thesis by blast
qed

theorem chat_record_shape_witness:
  "json_line (lit '' ab'' @ [10]) \<in> set (chat_records codepoint_tokenizer [lit ''ab ''] 5 True) \<and>
   py_strip ([32] @ py_rstrip (token_limited codepoint_tokenizer 5 (lit ''ab '')) @ [10]) \<noteq> []"
proof -
  have r: "json_line (lit '' ab'' @ [10]) \<in> set (chat_records codepoint_tokenizer [lit ''ab ''] 5 True)"
    by (simp add: chat_records_def normalized_messages_eq token_limited_def count_tokens_def
        codepoint_tokenizer_def lit_def assistant_content_def py_rstrip_def py_strip_def
        py_lstrip_def py_isspace_def)
  from chat_record_shape [OF r] r show ?thesis by simp
qed

subsection \<open>Token limit of the emitted records\<close>

lemma snippet_strip:
  "py_rstrip (lit ''<>();'' @ [10]) = lit ''<>();''"
  "py_strip (lit ''<>();'' @ [10]) \<noteq> []"
  by (simp_all add: py_strip_def py_lstrip_def py_rstrip_def py_isspace_def lit_def)

text \<open>
  C1 is not met by the code. The truncation keeps the first \<open>limit\<close> tokens, and the
  formatter strips trailing white space afterwards; a token can end in a newline that
  the tokenizer merged with the text before it, so the stripped text can count more
  tokens than the text it was cut from. For every tokenizer that encodes a fragment to
  at least two tokens, decodes the first of them to the text \<^verbatim>\<open><>();\<close> followed by a
  newline, and encodes \<^verbatim>\<open><>();\<close> to two tokens: with the limit 1 the one record that is
  emitted has the assistant content blank, \<^verbatim>\<open><>();\<close>, newline, and this content without
  its wrapping counts 2 tokens.
\<close>

theorem truncated_fragment_over_limit:
  assumes "encode tok fragment = Some (t # t' # ts)"
    and "decode tok [t] = Some (lit ''<>();'' @ [10])"
    and "encode tok (lit ''<>();'') = Some [a, b]"
  shows "assistant_contents tok [fragment] 1 flag = [lit '' <>();'' @ [10]] \<and>
         count_tokens tok (unwrap (lit '' <>();'' @ [10])) = 2"
proof -
  from assms(1,2) have "token_limited tok 1 fragment = lit ''<>();'' @ [10]"
    by (simp add: token_limited_def truncate_to_tokens_def count_tokens_def py_slice_to_def)
  then have "normalized_messages tok [fragment] 1 flag = [lit ''<>();'' @ [10]]"
    by (simp add: normalized_messages_eq snippet_strip)
  then have "assistant_contents tok [fragment] 1 flag = [assistant_content (lit ''<>();'' @ [10])]"
    by (simp add: assistant_contents_def)
  moreover have "assistant_content (lit ''<>();'' @ [10]) = lit '' <>();'' @ [10]"
    by (simp add: assistant_content_def snippet_strip) (simp add: lit_def)
  moreover have "unwrap (lit '' <>();'' @ [10]) = lit ''<>();''"
    by (simp add: unwrap_def lit_def)
  ultimately show ?thesis
    using assms(3) by (simp add: count_tokens_def)
qed

theorem truncated_fragment_over_limit_witness:
  "assistant_contents snippet_tokenizer [lit ''<>();'' @ [10] @ lit ''x''] 1 True =
     [lit '' <>();'' @ [10]] \<and>
   count_tokens snippet_tokenizer (lit ''<>();'' @ [10] @ lit ''x'') = 2 \<and>
   count_tokens snippet_tokenizer (lit ''<>();'' @ [10]) = 1 \<and>
   count_tokens snippet_tokenizer (unwrap (lit '' <>();'' @ [10])) = 2 \<and>
   \<not> int (count_tokens snippet_tokenizer (unwrap (lit '' <>();'' @ [10]))) \<le> 1"
proof -
  have e: "encode snippet_tokenizer (lit ''<>();'' @ [10] @ lit ''x'') = Some (0 # 1 # [])"
    by (simp add: snippet_tokenizer_def)
  have d: "decode snippet_tokenizer [0] = Some (lit ''<>();'' @ [10])"
    by (simp add: snippet_tokenizer_def)
  have r: "encode snippet_tokenizer (lit ''<>();'') = Some [2, 3]"
    by (simp add: snippet_tokenizer_def lit_def)
  have c: "count_tokens snippet_tokenizer (lit ''<>();'' @ [10]) = 1"
    by (simp add: snippet_tokenizer_def count_tokens_def lit_def)
  from truncated_fragment_over_limit [OF e d r, of True] e c show ?thesis
    by (simp add: count_tokens_def)
qed

subsection \<open>Texts that can be printed\<close>

text \<open>
  The texts of the program's own messages, of decimal numbers and of the exceptions hold
  no surrogate, so the print of the handler never raises and the extraction loop
  returns.
\<close>

lemma utf8_encodable_append [simp]:
  "utf8_encodable (a @ b) \<longleftrightarrow> utf8_encodable a \<and> utf8_encodable b"
  by (simp add: utf8_encodable_def)

lemma utf8_encodable_Nil [simp]: "utf8_encodable []"
  by (simp add: utf8_encodable_def)

lemma utf8_encodable_Cons [simp]:
  "utf8_encodable (c # s) \<longleftrightarrow> \<not> is_surrogate c \<and> utf8_encodable s"
  by (simp add: utf8_encodable_def)

lemma not_surrogate_small: "c < 256 \<Longrightarrow> \<not> is_surrogate c"
  unfolding is_surrogate_def by linarith

lemma utf8_encodable_lit [simp]: "utf8_encodable (lit s)"
proof -
  have "\<not> is_surrogate (of_char c)" for c
    using nat_of_char_less_256 [of c] unfolding is_surrogate_def by linarith
  then show ?thesis
    by (simp add: utf8_encodable_def lit_def list_all_iff)
qed

lemma utf8_encodable_apostrophe [simp]: "utf8_encodable apostrophe"
  by (simp add: apostrophe_def not_surrogate_small)

lemma utf8_encodable_str_nat [simp]: "utf8_encodable (py_str_nat n)"
proof (induction n rule: py_str_nat.induct)
  case (1 n)
  have digit: "\<not> is_surrogate (48 + k)" if "k < 10" for k :: nat
    using that by (intro not_surrogate_small) simp
  show ?case
  proof (cases "n < 10")
    case True
    then show ?thesis by (subst py_str_nat.simps) (simp add: digit)
  next
    case False
    with "1.IH" show ?thesis by (subst py_str_nat.simps) (simp add: digit)
  qed
qed

lemma not_surrogate_hex_digit: "\<not> is_surrogate (hex_digit (k mod 16))"
proof -
  have "hex_digit n < 256" if "n < 16" for n
    using that by (simp add: hex_digit_def)
  then have "hex_digit (k mod 16) < 256" by simp
  then show ?thesis by (rule not_surrogate_small)
qed

lemma utf8_encodable_hex4 [simp]: "utf8_encodable (hex4 c)"
  by (simp add: hex4_def not_surrogate_hex_digit)

lemma utf8_encodable_error_text [simp]: "utf8_encodable (encode_error_text s)"
  by (simp add: encode_error_text_def Let_def not_surrogate_small)

lemma utf8_encodable_type_name [simp]: "utf8_encodable (type_name v)"
  by (cases v) simp_all

lemma py_print_None: "utf8_encodable text \<Longrightarrow> py_print text = None"
  by (simp add: py_print_def)

lemma py_print_missing_mapping [simp]: "py_print (missing_mapping_warning i) = None"
  by (simp add: py_print_def missing_mapping_warning_def)

text \<open>Every exception that the \<^verbatim>\<open>try\<close> block raises has a text that can be printed.\<close>

lemma printable_no_attribute [simp]:
  "utf8_encodable (exception_text (no_attribute v (lit a)))"
  by (simp add: no_attribute_def)

lemma printable_not_iterable [simp]: "utf8_encodable (exception_text (not_iterable v))"
  by (simp add: not_iterable_def)

lemma printable_py_print: "py_print text = Some e \<Longrightarrow> utf8_encodable (exception_text e)"
  by (auto simp: py_print_def split: if_splits)

lemma printable_py_get: "py_get v (lit k) dflt = Inl e \<Longrightarrow> utf8_encodable (exception_text e)"
  by (cases v) auto

lemma printable_py_items: "py_items v = Inl e \<Longrightarrow> utf8_encodable (exception_text e)"
  by (cases v) auto

lemma printable_py_iter: "py_iter v = Inl e \<Longrightarrow> utf8_encodable (exception_text e)"
  by (cases v) auto

lemma printable_process_part:
  "process_part rp i nid part s = (s', Some e) \<Longrightarrow> utf8_encodable (exception_text e)"
  by (cases s)
     (auto simp: process_part_def Let_def dest: printable_py_print
       split: json.splits if_splits option.splits)

lemma printable_parts_loop:
  "parts_loop rp i nid parts s = (s', Some e) \<Longrightarrow> utf8_encodable (exception_text e)"
proof (induction parts arbitrary: s)
  case Nil
  then show ?case by simp
next
  case (Cons part parts)
  obtain s1 x where p: "process_part rp i nid part s = (s1, x)"
    by (cases "process_part rp i nid part s")
  show ?case
  proof (cases x)
    case None
    with p Cons show ?thesis by simp
  next
    case (Some e1)
    with p Cons.prems have "e = e1" by simp
    with p Some show ?thesis using printable_process_part by blast
  qed
qed

lemma printable_process_node:
  "process_node rp i nid node s = (s', Some e) \<Longrightarrow> utf8_encodable (exception_text e)"
  by (auto simp: process_node_def
       dest: printable_py_get printable_py_iter printable_parts_loop
       split: sum.splits if_splits)

lemma printable_nodes_loop:
  "nodes_loop rp i items s = (s', Some e) \<Longrightarrow> utf8_encodable (exception_text e)"
proof (induction items arbitrary: s)
  case Nil
  then show ?case by simp
next
  case (Cons item items)
  obtain nid node where item: "item = (nid, node)" by (cases item)
  obtain s1 x where p: "process_node rp i nid node s = (s1, x)"
    by (cases "process_node rp i nid node s")
  show ?case
  proof (cases x)
    case None
    with p item Cons show ?thesis by simp
  next
    case (Some e1)
    with p item Cons.prems have "e = e1" by simp
    with p Some show ?thesis using printable_process_node by blast
  qed
qed

lemma printable_try_conversation:
  "try_conversation rp i convo st = (st', Some e) \<Longrightarrow> utf8_encodable (exception_text e)"
  by (auto simp: try_conversation_def
       dest: printable_py_get printable_py_items printable_nodes_loop
       split: sum.splits if_splits prod.splits option.splits)

lemma py_print_exception_warning:
  "utf8_encodable (exception_text e) \<Longrightarrow> py_print (exception_warning i e) = None"
  by (simp add: py_print_def exception_warning_def)

lemma process_conversation_raised:
  assumes "try_conversation rp i convo st = (st', Some e)"
  shows "process_conversation rp i convo st =
           Inr (st'\<lparr>error_entries := error_entries st' @ [exception_entry i convo e],
                    skipped_conversations := skipped_conversations st' + 1\<rparr>)"
  using assms printable_try_conversation [OF assms]
  by (simp add: process_conversation_def py_print_exception_warning)

lemma process_conversation_returns: "\<exists>st'. process_conversation rp i convo st = Inr st'"
proof (cases "try_conversation rp i convo st")
  case (Pair st' x)
  show ?thesis
  proof (cases x)
    case None
    with Pair show ?thesis by (simp add: process_conversation_def)
  next
    case (Some e)
    with Pair have "try_conversation rp i convo st = (st', Some e)" by simp
    then show ?thesis using process_conversation_raised by blast
  qed
qed

lemma extract_loop_returns: "\<exists>st'. extract_loop rp i convos st = Inr st'"
proof (induction convos arbitrary: i st)
  case Nil
  show ?case by simp
next
  case (Cons convo convos)
  obtain st1 where "process_conversation rp i convo st = Inr st1"
    using process_conversation_returns by blast
  with Cons.IH [of "Suc i" st1] show ?case by simp
qed

subsection \<open>Conversation extractor\<close>

lemma py_strip_hello: "py_strip (lit ''hello'') = lit ''hello''" "lit ''hello'' \<noteq> []"
  by (simp_all add: py_strip_def py_lstrip_def py_rstrip_def py_isspace_def lit_def)

lemma entry_types:
  "entry_type (missing_mapping_entry i convo) = JStr (lit ''missing_mapping'')"
  "entry_type (non_text_content_entry rp i nid ct part) = JStr (lit ''non_text_content'')"
  "entry_type (non_string_part_entry i nid part) = JStr (lit ''non_string_part'')"
  "entry_type (exception_entry i convo e) = JStr (lit ''exception'')"
  by (simp_all add: entry_type_def dict_get_def missing_mapping_entry_def
      non_text_content_entry_def non_string_part_entry_def exception_entry_def)

lemma example_conversation_run:
  "try_conversation rp i (JObj [(lit ''mapping'', JObj example_nodes)]) st =
     (st\<lparr>all_user_messages := all_user_messages st @
          [lit ''Hello world. Great!'', lit ''Hello world. Great!'']\<rparr>, None)"
  by (simp add: try_conversation_def process_node_def process_part_def example_nodes_def
      dict_get_def lit_def py_strip_def py_lstrip_def py_rstrip_def py_isspace_def)

lemma example_conversation_step:
  "process_conversation rp i (JObj [(lit ''mapping'', JObj example_nodes)]) st =
     Inr (st\<lparr>all_user_messages := all_user_messages st @
          [lit ''Hello world. Great!'', lit ''Hello world. Great!'']\<rparr>)"
  by (simp add: process_conversation_def example_conversation_run)

text \<open>
  C6. In the loop over the parts of a user message, a dict part tagged
  \<open>audio_transcription\<close> whose text is \<open>hello\<close> appends exactly the fragment \<open>hello\<close>
  and no diagnostic entry; a dict part with any other tag, or with none, appends no
  fragment and exactly one entry, of type \<open>non_text_content\<close>. In both cases the loop
  goes on with the remaining parts.
\<close>

theorem structured_part:
  "(map_of d (lit ''content_type'') = Some (JStr (lit ''audio_transcription'')) \<and>
    map_of d (lit ''text'') = Some (JStr (lit ''hello'')) \<longrightarrow>
      parts_loop rp i nid (JObj d # parts) (msgs, es) =
        parts_loop rp i nid parts (msgs @ [lit ''hello''], es)) \<and>
   (map_of d (lit ''content_type'') \<noteq> Some (JStr (lit ''audio_transcription'')) \<longrightarrow>
      parts_loop rp i nid (JObj d # parts) (msgs, es) =
        parts_loop rp i nid parts
          (msgs, es @ [non_text_content_entry rp i nid
                         (dict_get d (lit ''content_type'') (JStr (lit ''unknown''))) (JObj d)]) \<and>
      entry_type (non_text_content_entry rp i nid
                    (dict_get d (lit ''content_type'') (JStr (lit ''unknown''))) (JObj d)) =
        JStr (lit ''non_text_content''))"
  by (simp add: process_part_def dict_get_def py_strip_hello entry_types)

theorem structured_part_witness:
  "parts_loop (\<lambda>v. []) 0 (lit ''n1'')
     [JObj [(lit ''content_type'', JStr (lit ''audio_transcription'')),
            (lit ''text'', JStr (lit ''hello''))]] ([], []) =
     (([lit ''hello''], []), None) \<and>
   parts_loop (\<lambda>v. []) 0 (lit ''n1'')
     [JObj [(lit ''content_type'', JStr (lit ''image_asset_pointer''))]] ([], []) =
     (([], [non_text_content_entry (\<lambda>v. []) 0 (lit ''n1'') (JStr (lit ''image_asset_pointer''))
              (JObj [(lit ''content_type'', JStr (lit ''image_asset_pointer''))])]), None) \<and>
   extract_loop (\<lambda>v. []) 0
     [JObj [(lit ''mapping'',
             JObj [(lit ''n1'',
                    JObj [(lit ''message'',
                           JObj [(lit ''author'', JObj [(lit ''role'', JStr (lit ''user''))]),
                                 (lit ''content'',
                                  JObj [(lit ''parts'',
                                         JArr [JObj [(lit ''content_type'',
                                                      JStr (lit ''audio_transcription'')),
                                                     (lit ''text'', JStr (lit ''hello''))],
                                               JObj [(lit ''content_type'',
                                                      JStr (lit ''image_asset_pointer''))]])])])])])]]
     initial_extraction =
     Inr \<lparr>all_user_messages = [lit ''hello''], skipped_conversations = 0,
      error_entries =
        [non_text_content_entry (\<lambda>v. []) 0 (lit ''n1'') (JStr (lit ''image_asset_pointer''))
           (JObj [(lit ''content_type'', JStr (lit ''image_asset_pointer''))])]\<rparr>"
proof -
  have audio: "map_of [(lit ''content_type'', JStr (lit ''audio_transcription'')),
                       (lit ''text'', JStr (lit ''hello''))] (lit ''content_type'') =
                 Some (JStr (lit ''audio_transcription'')) \<and>
               map_of [(lit ''content_type'', JStr (lit ''audio_transcription'')),
                       (lit ''text'', JStr (lit ''hello''))] (lit ''text'') =
                 Some (JStr (lit ''hello''))"
    by (simp add: lit_def)
  have image: "map_of [(lit ''content_type'', JStr (lit ''image_asset_pointer''))]
                 (lit ''content_type'') \<noteq> Some (JStr (lit ''audio_transcription''))"
    by (simp add: lit_def)
  from audio image
    structured_part [of "[(lit ''content_type'', JStr (lit ''audio_transcription'')),
                          (lit ''text'', JStr (lit ''hello''))]" "\<lambda>v. []" 0 "lit ''n1''" "[]" "[]" "[]"]
    structured_part [of "[(lit ''content_type'', JStr (lit ''image_asset_pointer''))]"
                        "\<lambda>v. []" 0 "lit ''n1''" "[]" "[]" "[]"]
  have parts: "parts_loop (\<lambda>v. []) 0 (lit ''n1'')
     [JObj [(lit ''content_type'', JStr (lit ''audio_transcription'')),
            (lit ''text'', JStr (lit ''hello''))]] ([], []) =
     (([lit ''hello''], []), None) \<and>
   parts_loop (\<lambda>v. []) 0 (lit ''n1'')
     [JObj [(lit ''content_type'', JStr (lit ''image_asset_pointer''))]] ([], []) =
     (([], [non_text_content_entry (\<lambda>v. []) 0 (lit ''n1'') (JStr (lit ''image_asset_pointer''))
              (JObj [(lit ''content_type'', JStr (lit ''image_asset_pointer''))])]), None)"
    by (simp add: dict_get_def)
  have "extract_loop (\<lambda>v. []) 0
     [JObj [(lit ''mapping'',
             JObj [(lit ''n1'',
                    JObj [(lit ''message'',
                           JObj [(lit ''author'', JObj [(lit ''role'', JStr (lit ''user''))]),
                                 (lit ''content'',
                                  JObj [(lit ''parts'',
                                         JArr [JObj [(lit ''content_type'',
                                                      JStr (lit ''audio_transcription'')),
                                                     (lit ''text'', JStr (lit ''hello''))],
                                               JObj [(lit ''content_type'',
                                                      JStr (lit ''image_asset_pointer''))]])])])])])]]
     initial_extraction =
     Inr \<lparr>all_user_messages = [lit ''hello''], skipped_conversations = 0,
      error_entries =
        [non_text_content_entry (\<lambda>v. []) 0 (lit ''n1'') (JStr (lit ''image_asset_pointer''))
           (JObj [(lit ''content_type'', JStr (lit ''image_asset_pointer''))])]\<rparr>"
    by (simp add: process_conversation_def try_conversation_def process_node_def process_part_def
        dict_get_def initial_extraction_def lit_def py_strip_def py_lstrip_def py_rstrip_def
        py_isspace_def)
  with parts show ?thesis by blast
qed

text \<open>
  C7. A conversation whose mapping is absent or empty adds no fragment, appends exactly
  one entry, of type \<open>missing_mapping\<close>, adds one to the count of skipped
  conversations, and the loop goes on with the conversations that follow.
\<close>

theorem missing_mapping_skipped:
  assumes "map_of d (lit ''mapping'') = None \<or> map_of d (lit ''mapping'') = Some (JObj [])"
  shows "extract_loop rp i (JObj d # rest) st =
           extract_loop rp (Suc i) rest
             (st\<lparr>error_entries := error_entries st @ [missing_mapping_entry i (JObj d)],
                 skipped_conversations := skipped_conversations st + 1\<rparr>) \<and>
         entry_type (missing_mapping_entry i (JObj d)) = JStr (lit ''missing_mapping'') \<and>
         map_sum id all_user_messages (process_conversation rp i (JObj d) st) =
           Inr (all_user_messages st)"
proof -
  from assms have "dict_get d (lit ''mapping'') (JObj []) = JObj []"
    by (auto simp: dict_get_def)
  then have "process_conversation rp i (JObj d) st =
      Inr (st\<lparr>error_entries := error_entries st @ [missing_mapping_entry i (JObj d)],
         skipped_conversations := skipped_conversations st + 1\<rparr>)"
    by (simp add: process_conversation_def try_conversation_def)
  then show ?thesis by (simp add: entry_types)
qed

theorem missing_mapping_skipped_witness:
  "extract_loop (\<lambda>v. []) 0
     [JObj [], JObj [(lit ''mapping'', JObj [])], JObj [(lit ''mapping'', JObj example_nodes)]]
     initial_extraction =
     Inr \<lparr>all_user_messages = [lit ''Hello world. Great!'', lit ''Hello world. Great!''],
      skipped_conversations = 2,
      error_entries = [missing_mapping_entry 0 (JObj []),
                       missing_mapping_entry 1 (JObj [(lit ''mapping'', JObj [])])]\<rparr>"
proof -
  let ?empty = "JObj [(lit ''mapping'', JObj [])]"
  let ?full = "JObj [(lit ''mapping'', JObj example_nodes)]"
  let ?st1 = "initial_extraction\<lparr>error_entries :=
      error_entries initial_extraction @ [missing_mapping_entry 0 (JObj [])],
      skipped_conversations := skipped_conversations initial_extraction + 1\<rparr>"
  let ?st2 = "?st1\<lparr>error_entries := error_entries ?st1 @ [missing_mapping_entry (Suc 0) ?empty],
      skipped_conversations := skipped_conversations ?st1 + 1\<rparr>"
  have absent: "map_of [] (lit ''mapping'') = None \<or> map_of [] (lit ''mapping'') = Some (JObj [])"
    by simp
  have empty: "map_of [(lit ''mapping'', JObj [])] (lit ''mapping'') = None \<or>
               map_of [(lit ''mapping'', JObj [])] (lit ''mapping'') = Some (JObj [])"
    by simp
  have "extract_loop (\<lambda>v. []) 0 [JObj [], ?empty, ?full] initial_extraction =
      extract_loop (\<lambda>v. []) (Suc 0) [?empty, ?full] ?st1"
    using missing_mapping_skipped [OF absent] by blast
  also have "\<dots> = extract_loop (\<lambda>v. []) (Suc (Suc 0)) [?full] ?st2"
    using missing_mapping_skipped [OF empty] by blast
  also have "\<dots> = Inr \<lparr>all_user_messages = [lit ''Hello world. Great!'', lit ''Hello world. Great!''],
      skipped_conversations = 2,
      error_entries = [missing_mapping_entry 0 (JObj []), missing_mapping_entry 1 ?empty]\<rparr>"
    by (simp add: initial_extraction_def example_conversation_step)
  finally show ?thesis .
qed

lemma try_conversation_raised:
  assumes "try_conversation rp i convo st = (st', Some e)"
  shows "all_user_messages st' = all_user_messages st"
    and "skipped_conversations st' = skipped_conversations st"
  using assms
  by (auto simp: try_conversation_def split: sum.splits if_splits prod.splits option.splits)

lemma exception_entry_error:
  "\<exists>d. exception_entry i convo e = JObj d \<and> map_of d (lit ''error'') = Some (JStr (exception_text e))"
  by (simp add: exception_entry_def lit_def)

text \<open>
  The diagnostics file: a failure to write it has a text that can be printed, and a
  write leaves the paths that can be opened as they were.
\<close>

lemma write_lines_raised:
  "write_lines fs path lines = (fs', Some e) \<Longrightarrow> utf8_encodable (exception_text e)"
  by (auto simp: write_lines_def Let_def split: option.splits list.splits)

lemma write_lines_open_error:
  "write_lines fs path lines = (fs', x) \<Longrightarrow> open_error fs' = open_error fs"
  by (auto simp: write_lines_def Let_def split: option.splits list.splits)

lemma report_write_failure_None:
  "utf8_encodable path \<Longrightarrow> utf8_encodable (exception_text e) \<Longrightarrow> report_write_failure path e = None"
  by (simp add: report_write_failure_def py_print_def)

lemma extract_user_messages_returns:
  assumes "py_iter v = Inr convos"
    and "extract_loop rp 0 convos initial_extraction = Inr st"
    and "\<forall>p. path = Some p \<longrightarrow> utf8_encodable p"
  shows "snd (extract_user_messages rp dumps v path fs) = Inr (all_user_messages st)"
    and "open_error (fst (extract_user_messages rp dumps v path fs)) = open_error fs"
proof -
  show "snd (extract_user_messages rp dumps v path fs) = Inr (all_user_messages st)"
  proof (cases path)
    case None
    with assms show ?thesis by (simp add: extract_user_messages_def)
  next
    case (Some p)
    with assms(3) have p: "utf8_encodable p" by simp
    obtain fs' x where w: "write_lines fs p (map dumps (error_entries st)) = (fs', x)"
      by (metis surj_pair)
    show ?thesis
    proof (cases x)
      case None
      with w assms Some p show ?thesis
        by (simp add: extract_user_messages_def py_print_def)
    next
      case (Some e)
      with w have "report_write_failure p e = None"
        using write_lines_raised report_write_failure_None p by blast
      with w Some assms \<open>path = Some p\<close> show ?thesis
        by (simp add: extract_user_messages_def)
    qed
  qed
  show "open_error (fst (extract_user_messages rp dumps v path fs)) = open_error fs"
  proof (cases path)
    case None
    with assms show ?thesis by (simp add: extract_user_messages_def)
  next
    case (Some p)
    obtain fs' x where w: "write_lines fs p (map dumps (error_entries st)) = (fs', x)"
      by (metis surj_pair)
    then have "open_error fs' = open_error fs" by (rule write_lines_open_error)
    with w assms Some show ?thesis
      by (auto simp: extract_user_messages_def split: option.splits)
  qed
qed

text \<open>
  C8. When the \<^verbatim>\<open>try\<close> block of conversation \<open>i\<close> is left by an exception, the
  handler appends one entry of type \<open>exception\<close> whose \<open>error\<close> field is the text of
  the exception, adds one to the count of skipped conversations, keeps the fragments
  collected before this conversation and none of this one, and the loop goes on with
  the next conversation. The loop returns for every list of conversations: no exception
  raised while a conversation is processed leaves it. The extractor itself returns to
  its caller whenever the path of its diagnostics file, if it has one, can be printed,
  as the path \<open>errors.jsonl\<close> that \<open>main\<close> passes can.
\<close>

theorem conversation_exception_absorbed:
  assumes "try_conversation rp i convo st = (st', Some e)"
  shows "extract_loop rp i (convo # rest) st =
           extract_loop rp (Suc i) rest
             (st'\<lparr>error_entries := error_entries st' @ [exception_entry i convo e],
                  skipped_conversations := skipped_conversations st' + 1\<rparr>) \<and>
         all_user_messages st' = all_user_messages st \<and>
         skipped_conversations st' = skipped_conversations st \<and>
         entry_type (exception_entry i convo e) = JStr (lit ''exception'') \<and>
         (\<exists>d. exception_entry i convo e = JObj d \<and>
              map_of d (lit ''error'') = Some (JStr (exception_text e))) \<and>
         (\<exists>r. extract_loop rp i (convo # rest) st = Inr r) \<and>
         ((\<forall>p. path = Some p \<longrightarrow> utf8_encodable p) \<longrightarrow>
            (\<exists>r. snd (extract_user_messages rp dumps (JArr (convo # rest)) path fs) = Inr r))"
proof -
  from assms have "process_conversation rp i convo st =
      Inr (st'\<lparr>error_entries := error_entries st' @ [exception_entry i convo e],
          skipped_conversations := skipped_conversations st' + 1\<rparr>)"
    by (rule process_conversation_raised)
  then have step: "extract_loop rp i (convo # rest) st =
           extract_loop rp (Suc i) rest
             (st'\<lparr>error_entries := error_entries st' @ [exception_entry i convo e],
                  skipped_conversations := skipped_conversations st' + 1\<rparr>)"
    by simp
  have total: "\<exists>r. extract_loop rp i (convo # rest) st = Inr r"
    by (rule extract_loop_returns)
  have "\<exists>r. snd (extract_user_messages rp dumps (JArr (convo # rest)) path fs) = Inr r"
    if "\<forall>p. path = Some p \<longrightarrow> utf8_encodable p"
  proof -
    obtain r where "extract_loop rp 0 (convo # rest) initial_extraction = Inr r"
      using extract_loop_returns by blast
    with that show ?thesis
      using extract_user_messages_returns(1) [of "JArr (convo # rest)" "convo # rest" rp r path dumps fs]
      by simp
  qed
  with step total show ?thesis
    using try_conversation_raised [OF assms] exception_entry_error [of i convo e]
    by (simp add: entry_types)
qed

theorem conversation_exception_absorbed_witness:
  "try_conversation (\<lambda>v. []) 0 (JStr (lit ''x'')) initial_extraction =
     (initial_extraction, Some (no_attribute (JStr (lit ''x'')) (lit ''get''))) \<and>
   extract_loop (\<lambda>v. []) 0 [JStr (lit ''x''), JObj [(lit ''mapping'', JObj example_nodes)]]
     initial_extraction =
     Inr \<lparr>all_user_messages = [lit ''Hello world. Great!'', lit ''Hello world. Great!''],
      skipped_conversations = 1,
      error_entries = [exception_entry 0 (JStr (lit ''x''))
                         (no_attribute (JStr (lit ''x'')) (lit ''get''))]\<rparr> \<and>
   exception_text (no_attribute (JStr (lit ''x'')) (lit ''get'')) =
     [39] @ lit ''str'' @ [39] @ lit '' object has no attribute '' @ [39] @ lit ''get'' @ [39] \<and>
   (\<exists>r. snd (extract_user_messages (\<lambda>v. []) example_dumps
              (JArr [JStr (lit ''x''), JObj [(lit ''mapping'', JObj example_nodes)]])
              (Some (lit ''errors.jsonl'')) other_files) = Inr r)"
proof -
  have raised: "try_conversation (\<lambda>v. []) 0 (JStr (lit ''x'')) initial_extraction =
     (initial_extraction, Some (no_attribute (JStr (lit ''x'')) (lit ''get'')))"
    by (simp add: try_conversation_def)
  have path: "\<forall>p. Some (lit ''errors.jsonl'') = Some p \<longrightarrow> utf8_encodable p"
    by simp
  from conversation_exception_absorbed [OF raised,
      of "[JObj [(lit ''mapping'', JObj example_nodes)]]" "Some (lit ''errors.jsonl'')"
         example_dumps other_files] raised path
  show ?thesis
    by (simp add: initial_extraction_def no_attribute_def apostrophe_def example_conversation_step)
qed

subsection \<open>Order of the fragments\<close>

lemma py_print_non_string_part:
  "py_print (non_string_part_warning i nid) = None \<longleftrightarrow> utf8_encodable nid"
  by (simp add: py_print_def non_string_part_warning_def)

lemma process_part_fragments:
  "fst (fst (process_part rp i nid part (msgs, es))) = msgs @ fragments_of_part part"
  by (cases part) (auto simp: process_part_def Let_def split: json.splits option.splits)

lemma process_part_raises:
  "(snd (process_part rp i nid part s) = None) = (\<not> raises_part nid part)"
proof -
  have "(py_print (non_string_part_warning i nid) = None) =
        (py_print (non_string_part_warning 0 nid) = None)"
    by (simp add: py_print_non_string_part)
  then show ?thesis
    by (cases s; cases part)
       (auto simp: process_part_def raises_part_def Let_def split: json.splits option.splits)
qed

lemma process_part_eq:
  "\<exists>es' x. process_part rp i nid part (msgs, es) = ((msgs @ fragments_of_part part, es'), x) \<and>
            (x = None) = (\<not> raises_part nid part)"
proof -
  obtain m' es' x where r: "process_part rp i nid part (msgs, es) = ((m', es'), x)"
    by (metis surj_pair)
  with process_part_fragments [of rp i nid part msgs es]
    process_part_raises [of rp i nid part "(msgs, es)"]
  show ?thesis by simp
qed

lemma parts_loop_eq:
  "\<exists>es' x. parts_loop rp i nid parts (msgs, es) = ((msgs @ fragments_of_parts nid parts, es'), x) \<and>
            (x = None) = (\<not> raises_parts nid parts)"
proof (induction parts arbitrary: msgs es)
  case Nil
  show ?case by simp
next
  case (Cons part parts)
  obtain es1 x1 where p: "process_part rp i nid part (msgs, es) =
      ((msgs @ fragments_of_part part, es1), x1)" and x1: "(x1 = None) = (\<not> raises_part nid part)"
    using process_part_eq by blast
  show ?case
  proof (cases x1)
    case None
    with p x1 Cons.IH [of "msgs @ fragments_of_part part" es1] show ?thesis by auto
  next
    case (Some e)
    with p x1 show ?thesis by simp
  qed
qed

lemma parts_loop_fragments:
  "fst (fst (parts_loop rp i nid parts (msgs, es))) = msgs @ fragments_of_parts nid parts"
  using parts_loop_eq [of rp i nid parts msgs es] by auto

lemma parts_loop_raises:
  "(snd (parts_loop rp i nid parts s) = None) = (\<not> raises_parts nid parts)"
  using parts_loop_eq [of rp i nid parts "fst s" "snd s"] by auto

lemma process_node_fragments:
  "fst (fst (process_node rp i nid node (msgs, es))) = msgs @ fragments_of_node nid node"
  unfolding process_node_def fragments_of_node_def
  by (simp add: parts_loop_fragments split: sum.splits)

lemma process_node_raises:
  "(snd (process_node rp i nid node s) = None) = (\<not> raises_node nid node)"
  unfolding process_node_def raises_node_def
  by (simp add: parts_loop_raises split: sum.splits)

lemma process_node_eq:
  "\<exists>es' x. process_node rp i nid node (msgs, es) = ((msgs @ fragments_of_node nid node, es'), x) \<and>
            (x = None) = (\<not> raises_node nid node)"
  using process_node_fragments [of rp i nid node msgs es]
    process_node_raises [of rp i nid node "(msgs, es)"]
  by (simp add: prod_eq_iff)

lemma nodes_loop_eq:
  "\<exists>es' x. nodes_loop rp i items (msgs, es) = ((msgs @ fragments_of_nodes items, es'), x) \<and>
            (x = None) = (\<not> raises_nodes items)"
proof (induction items arbitrary: msgs es)
  case Nil
  show ?case by simp
next
  case (Cons item items)
  obtain nid node where item: "item = (nid, node)" by (cases item)
  obtain es1 x1 where p: "process_node rp i nid node (msgs, es) =
      ((msgs @ fragments_of_node nid node, es1), x1)" and x1: "(x1 = None) = (\<not> raises_node nid node)"
    using process_node_eq by blast
  show ?case
  proof (cases x1)
    case None
    with p x1 item Cons.IH [of "msgs @ fragments_of_node nid node" es1] show ?thesis by auto
  next
    case (Some e)
    with p x1 item show ?thesis by simp
  qed
qed


lemma try_conversation_fragments:
  "all_user_messages (fst (try_conversation rp i convo st)) =
     all_user_messages st @ fragments_of_conversation convo"
proof -
  have *: "\<And>rp i items es. \<exists>es' x. nodes_loop rp i items ([], es) =
           ((fragments_of_nodes items, es'), x) \<and> (x = None) = (\<not> raises_nodes items)"
    using nodes_loop_eq [of _ _ _ "[]"] by simp
  show ?thesis
    unfolding fragments_of_conversation_def try_conversation_def
    apply (simp split: sum.splits add: initial_extraction_def)
    apply (intro conjI impI allI)
    subgoal for mapping items
      using * [of rp i items "error_entries st"] * [of "\<lambda>v. []" 0 items "[]"]
      by (auto simp: initial_extraction_def split: option.splits)
    done
qed

lemma process_conversation_fragments:
  assumes "process_conversation rp i convo st = Inr st'"
  shows "all_user_messages st' = all_user_messages st @ fragments_of_conversation convo"
  using assms try_conversation_fragments [of rp i convo st]
  by (cases "try_conversation rp i convo st")
     (auto simp: process_conversation_def split: option.splits)

lemma extract_loop_fragments:
  assumes "extract_loop rp i convos st = Inr st'"
  shows "all_user_messages st' =
           all_user_messages st @ concat (map fragments_of_conversation convos)"
  using assms
proof (induction convos arbitrary: i st)
  case Nil
  then show ?case by simp
next
  case (Cons convo convos)
  obtain st1 where p: "process_conversation rp i convo st = Inr st1"
    using process_conversation_returns by blast
  with Cons.prems have "extract_loop rp (Suc i) convos st1 = Inr st'" by simp
  then have "all_user_messages st' =
      all_user_messages st1 @ concat (map fragments_of_conversation convos)"
    by (rule Cons.IH)
  with process_conversation_fragments [OF p] show ?case by simp
qed


subsection \<open>What a loop adds to the collected lists\<close>






lemma append_extraction_initial [simp]: "append_extraction st initial_extraction = st"
  by (simp add: append_extraction_def initial_extraction_def)





subsection \<open>Tokenizers that agree on the fragments\<close>




subsection \<open>The output file and the exit status\<close>

lemma format_to_jsonl_Nil: "format_to_jsonl tok dumps [] limit flag = []"
  by (simp add: format_to_jsonl_def chat_records_def normalized_messages_def remove_duplicates_def
      filter_empty_entries_def)

lemma fragments_of_key: "fragments_of_conversation (JStr k) = []"
  by (simp add: fragments_of_conversation_def try_conversation_def initial_extraction_def)

lemma try_conversation_key:
  "try_conversation rp i (JStr k) st = (st, Some (no_attribute (JStr k) (lit ''get'')))"
  by (simp add: try_conversation_def)

lemma extract_loop_keys:
  "extract_loop rp i (map JStr ks) st =
     Inr (st\<lparr>error_entries := error_entries st @
                map (\<lambda>(j, k). exception_entry j (JStr k) (no_attribute (JStr k) (lit ''get'')))
                  (zip [i..<i + length ks] ks),
             skipped_conversations := skipped_conversations st + length ks\<rparr>)"
proof (induction ks arbitrary: i st)
  case Nil
  show ?case by simp
next
  case (Cons k ks)
  have "process_conversation rp i (JStr k) st =
      Inr (st\<lparr>error_entries := error_entries st @
                  [exception_entry i (JStr k) (no_attribute (JStr k) (lit ''get''))],
               skipped_conversations := skipped_conversations st + 1\<rparr>)"
    using process_conversation_raised [OF try_conversation_key] .
  moreover have "[i..<i + length (k # ks)] = i # [Suc i..<Suc i + length ks]"
    using upt_conv_Cons [of i "i + length (k # ks)"] by simp
  ultimately show ?case
    by (simp add: Cons.IH)
qed

lemma py_iter_len: "py_iter v = Inr convos \<Longrightarrow> py_len v = Inr (length convos)"
  by (cases v) auto

lemma dropWhile_all: "dropWhile P xs = [] \<longleftrightarrow> list_all P xs"
  by (simp add: list_all_iff)

lemma write_lines_opened:
  assumes "open_error fs path = None"
  shows "fst (write_lines fs path lines) =
           fs\<lparr>files := (files fs)(path \<mapsto>
                concat (map (\<lambda>line. line @ [10]) (takeWhile utf8_encodable lines)))\<rparr>"
    and "snd (write_lines fs path lines) = None \<longleftrightarrow> list_all utf8_encodable lines"
proof -
  show "fst (write_lines fs path lines) =
           fs\<lparr>files := (files fs)(path \<mapsto>
                concat (map (\<lambda>line. line @ [10]) (takeWhile utf8_encodable lines)))\<rparr>"
    using assms by (simp add: write_lines_def Let_def split: list.splits)
  show "snd (write_lines fs path lines) = None \<longleftrightarrow> list_all utf8_encodable lines"
  proof (cases "dropWhile utf8_encodable lines")
    case Nil
    then have "list_all utf8_encodable lines"
      by (simp add: list_all_iff)
    then show ?thesis
      unfolding write_lines_def Let_def Nil using assms by simp
  next
    case (Cons line rest)
    then have "\<not> list_all utf8_encodable lines"
      using dropWhile_all [of utf8_encodable lines] by simp
    then show ?thesis
      unfolding write_lines_def Let_def Cons using assms by simp
  qed
qed

lemma main_output:
  assumes "utf8_encodable (arg_input_file a)" and "utf8_encodable (arg_output_file a)"
    and "load_conversations (lib_loads lib) fs (arg_input_file a) = Inr v"
    and "py_iter v = Inr convos"
    and "writable fs (arg_output_file a)"
  shows "files (fst (main lib a fs)) (arg_output_file a) =
           Some (concat (map (\<lambda>line. line @ [10])
                   (takeWhile utf8_encodable
                      (format_to_jsonl (lib_tokenizer lib) (lib_dumps lib)
                         (concat (map fragments_of_conversation convos))
                         (arg_max_tokens a) (\<not> arg_no_remove_duplicates a)))))"
    and "snd (main lib a fs) =
           (if list_all utf8_encodable
                 (format_to_jsonl (lib_tokenizer lib) (lib_dumps lib)
                    (concat (map fragments_of_conversation convos))
                    (arg_max_tokens a) (\<not> arg_no_remove_duplicates a))
            then 0 else 1)"
proof -
  let ?lines = "format_to_jsonl (lib_tokenizer lib) (lib_dumps lib)
      (concat (map fragments_of_conversation convos)) (arg_max_tokens a) (\<not> arg_no_remove_duplicates a)"
  let ?run = "extract_user_messages (lib_repr lib) (lib_dumps lib) v (Some (lit ''errors.jsonl'')) fs"
  obtain st where st: "extract_loop (lib_repr lib) 0 convos initial_extraction = Inr st"
    using extract_loop_returns by blast
  then have msgs: "all_user_messages st = concat (map fragments_of_conversation convos)"
    using extract_loop_fragments [of "lib_repr lib" 0 convos initial_extraction st]
    by (simp add: initial_extraction_def)
  have path: "\<forall>p. Some (lit ''errors.jsonl'') = Some p \<longrightarrow> utf8_encodable p"
    by simp
  obtain fs1 where run: "?run = (fs1, Inr (concat (map fragments_of_conversation convos)))"
    using extract_user_messages_returns(1) [OF assms(4) st path, of "lib_dumps lib" fs] msgs
    by (metis prod.collapse)
  have "open_error (fst ?run) = open_error fs"
    using extract_user_messages_returns(2) [OF assms(4) st path] .
  with run have o: "open_error fs1 = open_error fs"
    by simp
  have printed: "py_print (lit ''Successfully wrote '' @ py_str_nat (length ?lines)
      @ lit '' lines to '' @ arg_output_file a) = None"
    using assms(2) by (simp add: py_print_def)
  have m: "main lib a fs = write_jsonl_output fs1 (arg_output_file a) ?lines"
    unfolding main_def using assms(1,2,3) py_iter_len [OF assms(4)] run
    by (simp add: py_print_def Let_def)
  have w: "open_error fs1 (arg_output_file a) = None"
    using assms(5) o by (simp add: writable_def)
  obtain fs2 x where wl: "write_lines fs1 (arg_output_file a) ?lines = (fs2, x)"
    by (metis surj_pair)
  with write_lines_opened [OF w, of ?lines]
  have fs2: "fs2 = fs1\<lparr>files := (files fs1)(arg_output_file a \<mapsto>
                concat (map (\<lambda>line. line @ [10]) (takeWhile utf8_encodable ?lines)))\<rparr>"
    and x: "x = None \<longleftrightarrow> list_all utf8_encodable ?lines"
    by simp_all
  show "files (fst (main lib a fs)) (arg_output_file a) =
      Some (concat (map (\<lambda>line. line @ [10]) (takeWhile utf8_encodable ?lines)))"
    unfolding m write_jsonl_output_def wl using fs2 printed
    by (cases x) simp_all
  show "snd (main lib a fs) = (if list_all utf8_encodable ?lines then 0 else 1)"
    unfolding m write_jsonl_output_def wl using x printed
    by (cases x) simp_all
qed

lemma example_paths: "lit ''in.json'' \<noteq> lit ''out.jsonl''"
  by (simp add: lit_def)

lemma example_loaded:
  "load_conversations (lib_loads example_library) (example_files txt) (arg_input_file example_args) =
     (case example_loads txt of None \<Rightarrow> Inl 1 | Some v \<Rightarrow> Inr v)"
  using example_paths
  by (simp add: load_conversations_def example_library_def example_files_def example_args_def)

lemma example_texts:
  "example_loads example_text = Some example_export"
  "example_loads example_object_text = Some (JObj [(lit ''a'', JInt 1)])"
  "example_loads example_string_text = Some (JStr (lit ''ab''))"
  "example_loads (lit ''null'') = Some JNull"
  "example_loads (lit ''not json'') = None"
  by (simp_all add: example_loads_def example_text_def example_object_text_def
      example_string_text_def quoted_def lit_def)

lemma example_encodable:
  "utf8_encodable (arg_input_file example_args)"
  "utf8_encodable (arg_output_file example_args)"
  "utf8_encodable (arg_input_file other_args)"
  "utf8_encodable (arg_output_file other_args)"
  by (simp_all add: example_args_def other_args_def)

lemma example_writable:
  "writable (example_files txt) (arg_output_file example_args)"
  "writable other_files (arg_output_file other_args)"
  by (simp_all add: writable_def example_files_def other_files_def)




subsection \<open>Fatal errors\<close>

text \<open>
  C3 (as the code has it). When the input file cannot be read, when its text does not
  parse as JSON, or when the parsed value is \<^verbatim>\<open>null\<close>, a boolean or a number, the run
  ends with status 1 and leaves the file system as it was, so the output file is
  neither created nor truncated. A top-level JSON object or string is not rejected: the
  keys of the object, or the characters of the string, are taken for conversations.
  Each of them raises in the \<^verbatim>\<open>try\<close> block, so that the extraction returns no fragment,
  counts every one of them as skipped and holds one entry of type \<open>exception\<close> for each,
  in order. When the two paths of the command line can be printed and the output path
  can be opened for writing, the run then leaves an empty output file and ends with
  status 0.
\<close>

theorem malformed_top_level:
  "(files fs (arg_input_file a) = None \<longrightarrow> main lib a fs = (fs, 1)) \<and>
   (files fs (arg_input_file a) = Some txt \<and> lib_loads lib txt = None \<longrightarrow>
      main lib a fs = (fs, 1)) \<and>
   (files fs (arg_input_file a) = Some txt \<and> lib_loads lib txt = Some v \<and>
    (v = JNull \<or> (\<exists>b. v = JBool b) \<or> (\<exists>n. v = JInt n) \<or> (\<exists>r. v = JFloat r)) \<longrightarrow>
      main lib a fs = (fs, 1)) \<and>
   (files fs (arg_input_file a) = Some txt \<and> lib_loads lib txt = Some v \<and>
    (v = JObj d \<and> ks = map fst d \<or> v = JStr s \<and> ks = map (\<lambda>c. [c]) s) \<longrightarrow>
      py_iter v = Inr (map JStr ks) \<and>
      extract_loop (lib_repr lib) 0 (map JStr ks) initial_extraction =
        Inr \<lparr>all_user_messages = [], skipped_conversations = length ks,
             error_entries =
               map (\<lambda>(j, k). exception_entry j (JStr k) (no_attribute (JStr k) (lit ''get'')))
                 (zip [0..<length ks] ks)\<rparr> \<and>
      (utf8_encodable (arg_input_file a) \<and> utf8_encodable (arg_output_file a) \<and>
       writable fs (arg_output_file a) \<longrightarrow>
         snd (main lib a fs) = 0 \<and> files (fst (main lib a fs)) (arg_output_file a) = Some []))"
proof (intro conjI impI)
  assume "files fs (arg_input_file a) = None"
  then show "main lib a fs = (fs, 1)"
    by (simp add: main_def load_conversations_def split: option.splits)
next
  assume "files fs (arg_input_file a) = Some txt \<and> lib_loads lib txt = None"
  then show "main lib a fs = (fs, 1)"
    by (simp add: main_def load_conversations_def split: option.splits)
next
  assume "files fs (arg_input_file a) = Some txt \<and> lib_loads lib txt = Some v \<and>
    (v = JNull \<or> (\<exists>b. v = JBool b) \<or> (\<exists>n. v = JInt n) \<or> (\<exists>r. v = JFloat r))"
  then show "main lib a fs = (fs, 1)"
    by (auto simp: main_def load_conversations_def split: option.splits)
next
  assume h: "files fs (arg_input_file a) = Some txt \<and> lib_loads lib txt = Some v \<and>
    (v = JObj d \<and> ks = map fst d \<or> v = JStr s \<and> ks = map (\<lambda>c. [c]) s)"
  then show iter: "py_iter v = Inr (map JStr ks)"
    by auto
  show "extract_loop (lib_repr lib) 0 (map JStr ks) initial_extraction =
        Inr \<lparr>all_user_messages = [], skipped_conversations = length ks,
             error_entries =
               map (\<lambda>(j, k). exception_entry j (JStr k) (no_attribute (JStr k) (lit ''get'')))
                 (zip [0..<length ks] ks)\<rparr>"
    by (simp add: extract_loop_keys initial_extraction_def)
  assume p: "utf8_encodable (arg_input_file a) \<and> utf8_encodable (arg_output_file a) \<and>
       writable fs (arg_output_file a)"
  from h have l: "load_conversations (lib_loads lib) fs (arg_input_file a) = Inr v"
    by (simp add: load_conversations_def)
  have none: "concat (map fragments_of_conversation (map JStr ks)) = []"
    by (simp add: fragments_of_key)
  from p have e1: "utf8_encodable (arg_input_file a)" and e2: "utf8_encodable (arg_output_file a)"
    and wr: "writable fs (arg_output_file a)"
    by simp_all
  show "snd (main lib a fs) = 0"
    using main_output(2) [OF e1 e2 l iter wr] unfolding none format_to_jsonl_Nil by simp
  show "files (fst (main lib a fs)) (arg_output_file a) = Some []"
    using main_output(1) [OF e1 e2 l iter wr] unfolding none format_to_jsonl_Nil by simp
qed

theorem malformed_top_level_witness:
  "main example_library (example_args\<lparr>arg_input_file := lit ''missing.json''\<rparr>)
     (example_files (lit ''null'')) = (example_files (lit ''null''), 1) \<and>
   main example_library example_args (example_files (lit ''not json'')) =
     (example_files (lit ''not json''), 1) \<and>
   main example_library example_args (example_files (lit ''null'')) =
     (example_files (lit ''null''), 1) \<and>
   extract_loop (lib_repr example_library) 0 [JStr (lit ''a'')] initial_extraction =
     Inr \<lparr>all_user_messages = [], skipped_conversations = 1,
          error_entries = [exception_entry 0 (JStr (lit ''a''))
                             (no_attribute (JStr (lit ''a'')) (lit ''get''))]\<rparr> \<and>
   snd (main example_library example_args (example_files example_object_text)) = 0 \<and>
   files (fst (main example_library example_args (example_files example_object_text)))
     (lit ''out.jsonl'') = Some [] \<and>
   extract_loop (lib_repr example_library) 0 [JStr (lit ''a''), JStr (lit ''b'')]
     initial_extraction =
     Inr \<lparr>all_user_messages = [], skipped_conversations = 2,
          error_entries = [exception_entry 0 (JStr (lit ''a''))
                             (no_attribute (JStr (lit ''a'')) (lit ''get'')),
                           exception_entry 1 (JStr (lit ''b''))
                             (no_attribute (JStr (lit ''b'')) (lit ''get''))]\<rparr> \<and>
   snd (main example_library example_args (example_files example_string_text)) = 0"
proof -
  have 1: "files (example_files (lit ''null''))
             (arg_input_file (example_args\<lparr>arg_input_file := lit ''missing.json''\<rparr>)) = None"
    by (simp add: example_files_def example_args_def lit_def)
  have f: "files (example_files t) (arg_input_file example_args) = Some t" for t
    using example_paths by (simp add: example_files_def example_args_def)
  have l: "lib_loads example_library = example_loads"
    by (simp add: example_library_def)
  have 2: "files (example_files (lit ''not json'')) (arg_input_file example_args) =
             Some (lit ''not json'') \<and>
           lib_loads example_library (lit ''not json'') = None"
    by (simp add: f l example_texts)
  have 3: "files (example_files (lit ''null'')) (arg_input_file example_args) = Some (lit ''null'') \<and>
           lib_loads example_library (lit ''null'') = Some JNull \<and>
           (JNull = JNull \<or> (\<exists>b. JNull = JBool b) \<or> (\<exists>n. JNull = JInt n) \<or> (\<exists>r. JNull = JFloat r))"
    by (simp add: f l example_texts)
  have 4: "files (example_files example_object_text) (arg_input_file example_args) =
             Some example_object_text \<and>
           lib_loads example_library example_object_text = Some (JObj [(lit ''a'', JInt 1)]) \<and>
           (JObj [(lit ''a'', JInt 1)] = JObj [(lit ''a'', JInt 1)] \<and>
              [lit ''a''] = map fst [(lit ''a'', JInt 1)] \<or>
            JObj [(lit ''a'', JInt 1)] = JStr [] \<and> [lit ''a''] = map (\<lambda>c. [c]) [])"
    by (simp add: f l example_texts)
  have 5: "files (example_files example_string_text) (arg_input_file example_args) =
             Some example_string_text \<and>
           lib_loads example_library example_string_text = Some (JStr (lit ''ab'')) \<and>
           (JStr (lit ''ab'') = JObj [] \<and> [lit ''a'', lit ''b''] = map fst [] \<or>
            JStr (lit ''ab'') = JStr (lit ''ab'') \<and>
              [lit ''a'', lit ''b''] = map (\<lambda>c. [c]) (lit ''ab''))"
    by (simp add: f l example_texts) (simp add: lit_def)
  have p: "utf8_encodable (arg_input_file example_args) \<and>
           utf8_encodable (arg_output_file example_args) \<and>
           writable (example_files t) (arg_output_file example_args)" for t
    by (simp add: example_encodable example_writable)
  have out: "arg_output_file example_args = lit ''out.jsonl''"
    by (simp add: example_args_def)
  have "main example_library (example_args\<lparr>arg_input_file := lit ''missing.json''\<rparr>)
     (example_files (lit ''null'')) = (example_files (lit ''null''), 1)"
    using 1 malformed_top_level [of "example_files (lit ''null'')"
      "example_args\<lparr>arg_input_file := lit ''missing.json''\<rparr>" example_library]
    by blast
  moreover have "main example_library example_args (example_files (lit ''not json'')) =
     (example_files (lit ''not json''), 1)"
    using 2 malformed_top_level [of "example_files (lit ''not json'')" example_args example_library
      "lit ''not json''"]
    by blast
  moreover have "main example_library example_args (example_files (lit ''null'')) =
     (example_files (lit ''null''), 1)"
    using 3 malformed_top_level [of "example_files (lit ''null'')" example_args example_library
      "lit ''null''" JNull]
    by blast
  moreover have "extract_loop (lib_repr example_library) 0 (map JStr [lit ''a''])
        initial_extraction =
        Inr \<lparr>all_user_messages = [], skipped_conversations = length [lit ''a''],
             error_entries =
               map (\<lambda>(j, k). exception_entry j (JStr k) (no_attribute (JStr k) (lit ''get'')))
                 (zip [0..<length [lit ''a'']] [lit ''a''])\<rparr> \<and>
      (utf8_encodable (arg_input_file example_args) \<and>
       utf8_encodable (arg_output_file example_args) \<and>
       writable (example_files example_object_text) (arg_output_file example_args) \<longrightarrow>
         snd (main example_library example_args (example_files example_object_text)) = 0 \<and>
         files (fst (main example_library example_args (example_files example_object_text)))
           (arg_output_file example_args) = Some [])"
    using malformed_top_level [of "example_files example_object_text" example_args
      example_library example_object_text "JObj [(lit ''a'', JInt 1)]" "[(lit ''a'', JInt 1)]"
      "[lit ''a'']" "[]", THEN conjunct2, THEN conjunct2, THEN conjunct2, THEN mp, OF 4,
      THEN conjunct2] .
  moreover have "extract_loop (lib_repr example_library) 0 (map JStr [lit ''a'', lit ''b''])
        initial_extraction =
        Inr \<lparr>all_user_messages = [], skipped_conversations = length [lit ''a'', lit ''b''],
             error_entries =
               map (\<lambda>(j, k). exception_entry j (JStr k) (no_attribute (JStr k) (lit ''get'')))
                 (zip [0..<length [lit ''a'', lit ''b'']] [lit ''a'', lit ''b''])\<rparr> \<and>
      (utf8_encodable (arg_input_file example_args) \<and>
       utf8_encodable (arg_output_file example_args) \<and>
       writable (example_files example_string_text) (arg_output_file example_args) \<longrightarrow>
         snd (main example_library example_args (example_files example_string_text)) = 0 \<and>
         files (fst (main example_library example_args (example_files example_string_text)))
           (arg_output_file example_args) = Some [])"
    using malformed_top_level [of "example_files example_string_text" example_args
      example_library example_string_text "JStr (lit ''ab'')" "[]" "[lit ''a'', lit ''b'']"
      "lit ''ab''", THEN conjunct2, THEN conjunct2, THEN conjunct2, THEN mp, OF 5,
      THEN conjunct2] .
  ultimately show ?thesis
    using p [of example_object_text] p [of example_string_text]
    by (simp add: out upt_conv_Cons)
qed

text \<open>
  C3 as stated fails for a JSON object: the run ends with status 0 and the previous
  text of the output file is gone.
\<close>

theorem malformed_top_level_counterexample:
  "snd (main example_library example_args (example_files example_object_text)) = 0 \<and>
   files (example_files example_object_text) (lit ''out.jsonl'') = Some (lit ''old'') \<and>
   files (fst (main example_library example_args (example_files example_object_text)))
     (lit ''out.jsonl'') = Some []"
proof -
  have l: "load_conversations (lib_loads example_library) (example_files example_object_text)
      (arg_input_file example_args) = Inr (JObj [(lit ''a'', JInt 1)])"
    by (simp add: example_loaded example_texts)
  have i: "py_iter (JObj [(lit ''a'', JInt 1)]) = Inr [JStr (lit ''a'')]"
    by simp
  have n: "concat (map fragments_of_conversation [JStr (lit ''a'')]) = []"
    by (simp add: fragments_of_key)
  have out: "arg_output_file example_args = lit ''out.jsonl''"
    by (simp add: example_args_def)
  have "snd (main example_library example_args (example_files example_object_text)) = 0"
    using main_output(2) [OF example_encodable(1,2) l i example_writable(1)]
    unfolding n format_to_jsonl_Nil by simp
  moreover have "files (fst (main example_library example_args (example_files example_object_text)))
     (lit ''out.jsonl'') = Some []"
    using main_output(1) [OF example_encodable(1,2) l i example_writable(1)]
    unfolding n format_to_jsonl_Nil out by simp
  moreover have "files (example_files example_object_text) (lit ''out.jsonl'') = Some (lit ''old'')"
    by (simp add: example_files_def)
  ultimately show ?thesis by blast
qed

subsection \<open>Determinism\<close>




end
